theory Spec2Isabelle
  imports Complex_Main "HOL-Library.Sublist"
begin

section \<open>Strings and the string primitives the script uses\<close>

text \<open>
  The script (\<^verbatim>\<open>src/script.js\<close>) works on JavaScript strings. A string is modelled as
  a \<^typ>\<open>string\<close>, one \<^typ>\<open>char\<close> for each code unit below 256 (ASCII and Latin-1).
  A parameter that the script guards with \<^verbatim>\<open>(s || '')\<close> may also be \<^verbatim>\<open>undefined\<close> or
  \<^verbatim>\<open>null\<close>; both are falsy, as the empty string is.
\<close>

datatype jsstring = Undefined | Null | Str string

fun or_empty :: "jsstring \<Rightarrow> string" where
  "or_empty Undefined = []"
| "or_empty Null = []"
| "or_empty (Str s) = s"

text \<open>
  \<^verbatim>\<open>String.prototype.toLowerCase\<close> on code units below 256: the letters A to Z and the
  Latin-1 capitals 0xC0 to 0xDE (without the multiplication sign 0xD7) move up by 32.
\<close>

definition upper_chars :: "char list" where
  "upper_chars = ''ABCDEFGHIJKLMNOPQRSTUVWXYZ'' @
     [CHR 0xC0, CHR 0xC1, CHR 0xC2, CHR 0xC3, CHR 0xC4, CHR 0xC5, CHR 0xC6, CHR 0xC7,
      CHR 0xC8, CHR 0xC9, CHR 0xCA, CHR 0xCB, CHR 0xCC, CHR 0xCD, CHR 0xCE, CHR 0xCF,
      CHR 0xD0, CHR 0xD1, CHR 0xD2, CHR 0xD3, CHR 0xD4, CHR 0xD5, CHR 0xD6,
      CHR 0xD8, CHR 0xD9, CHR 0xDA, CHR 0xDB, CHR 0xDC, CHR 0xDD, CHR 0xDE]"

definition lower_chars :: "char list" where
  "lower_chars = ''abcdefghijklmnopqrstuvwxyz'' @
     [CHR 0xE0, CHR 0xE1, CHR 0xE2, CHR 0xE3, CHR 0xE4, CHR 0xE5, CHR 0xE6, CHR 0xE7,
      CHR 0xE8, CHR 0xE9, CHR 0xEA, CHR 0xEB, CHR 0xEC, CHR 0xED, CHR 0xEE, CHR 0xEF,
      CHR 0xF0, CHR 0xF1, CHR 0xF2, CHR 0xF3, CHR 0xF4, CHR 0xF5, CHR 0xF6,
      CHR 0xF8, CHR 0xF9, CHR 0xFA, CHR 0xFB, CHR 0xFC, CHR 0xFD, CHR 0xFE]"

definition toLowerCase_char :: "char \<Rightarrow> char" where
  "toLowerCase_char c = (case map_of (zip upper_chars lower_chars) c of Some d \<Rightarrow> d | None \<Rightarrow> c)"

definition toLowerCase :: "string \<Rightarrow> string" where
  "toLowerCase s = map toLowerCase_char s"

text \<open>\<^verbatim>\<open>s.includes(t)\<close>: \<open>t\<close> occurs in \<open>s\<close> as a contiguous run.\<close>

definition str_includes :: "string \<Rightarrow> string \<Rightarrow> bool" where
  "str_includes s t = sublist t s"

text \<open>
  \<^verbatim>\<open>String.prototype.trim\<close>: white space and line terminators are dropped at both ends.
  Below 256 these are tab, line feed, vertical tab, form feed, carriage return, space and
  the no-break space.
\<close>

definition white_space :: "char list" where
  "white_space = [CHR 0x09, CHR 0x0A, CHR 0x0B, CHR 0x0C, CHR 0x0D, CHR 0x20, CHR 0xA0]"

definition trim :: "string \<Rightarrow> string" where
  "trim s =
     rev (dropWhile (\<lambda>c. c \<in> set white_space) (rev (dropWhile (\<lambda>c. c \<in> set white_space) s)))"

section \<open>escapeHtml (lines 208 to 210)\<close>

text \<open>
  \<^verbatim>\<open>(s || '').replace(/[&<>"']/g, (m) => ({'&':'&amp;', ...}[m]))\<close>. The character class
  of the regular expression and the keys of the replacement table are written out
  separately in the source, and so they are here; a matched character with no entry in
  the table would be replaced by the text \<^verbatim>\<open>undefined\<close>.
\<close>

definition special_chars :: "char list" where
  "special_chars = [CHR ''&'', CHR ''<'', CHR ''>'', CHR 0x22, CHR 0x27]"

definition entities :: "(char \<times> string) list" where
  "entities =
     [(CHR ''&'', ''&amp;''), (CHR ''<'', ''&lt;''), (CHR ''>'', ''&gt;''),
      (CHR 0x22, ''&quot;''), (CHR 0x27, ''&#39;'')]"

definition replace_char :: "char \<Rightarrow> string" where
  "replace_char m =
     (if m \<in> set special_chars
      then (case map_of entities m of Some e \<Rightarrow> e | None \<Rightarrow> ''undefined'')
      else [m])"

definition escapeHtml :: "jsstring \<Rightarrow> string" where
  "escapeHtml s = concat (map replace_char (or_empty s))"

text \<open>Position \<open>i\<close> of \<open>out\<close> starts one of the five replacement entities.\<close>

definition entity_at :: "string \<Rightarrow> nat \<Rightarrow> bool" where
  "entity_at out i = (\<exists>e \<in> snd ` set entities. prefix e (drop i out))"

section \<open>The mocked fetcher (lines 39 to 108)\<close>

text \<open>
  The context object handed to the fetcher. \<^verbatim>\<open>mockAIResponse\<close> reads two of its
  properties, \<^verbatim>\<open>lastImage\<close> and \<^verbatim>\<open>location\<close>; a property that the object does not have
  reads as \<^verbatim>\<open>undefined\<close>, here \<^const>\<open>None\<close>. Only the presence of either matters.
\<close>

record coords =
  lat :: real
  lon :: real

datatype image = File string

record ctx =
  location :: "coords option"
  lastImage :: "image option"

text \<open>
  The object a fetcher resolves with. A property that is absent (\<^verbatim>\<open>confidence\<close> and
  \<^verbatim>\<open>sources\<close> of the failure response, \<^verbatim>\<open>error\<close> of the mocked one) is \<^const>\<open>None\<close>,
  respectively \<^const>\<open>False\<close> for the flag that is only tested for truth.
\<close>

record response =
  res_answer :: string
  res_confidence :: "real option"
  res_sources :: "string list option"
  res_error :: bool

datatype js_error = TypeError | SyntaxError | Not_modelled

definition not_sure_text :: string where
  "not_sure_text = ''I'm not sure how to answer that. Could you provide a photo or more details? For urgent issues, you can use the 'Escalate' button.''"

definition please_type_text :: string where
  "please_type_text = ''Please type a question or upload a photo of your crop.''"

definition leaf_spot_text :: string where
  "leaf_spot_text = ''Probable issue: Leaf spot. Recommendation: Remove affected lower leaves. For chemical control, use a copper-based fungicide at the recommended dosage. Please consult your local Krishibhavan for specific product guidance.''"

definition market_text :: string where
  "market_text = ''Market rates change daily. It's best to check your local mandi for today's rates. We can provide live rates if connected to a market API.''"

definition weather_text :: string where
  "weather_text = ''Weather Alert: Light showers are expected tomorrow evening. It's advisable to postpone spraying pesticides. Ensure proper drainage for low-lying fields. (This can be integrated with a local weather API).''"

definition location_prefix :: string where
  "location_prefix = ''(Based on your approximate location) ''"

definition apology_text :: string where
  "apology_text = ''Sorry, I couldn't connect to the server. Please check your internet connection and try again.''"

text \<open>
  \<^verbatim>\<open>mockAIResponse(query, lang, ctx)\<close>, lines 83 to 108. The chain of tests is the
  source's, in its order. When \<open>ctx\<close> is \<^verbatim>\<open>null\<close> or \<^verbatim>\<open>undefined\<close> (here \<^const>\<open>None\<close>)
  the first read of \<^verbatim>\<open>ctx.lastImage\<close> throws a \<^verbatim>\<open>TypeError\<close>; the operators \<^verbatim>\<open>&&\<close>
  and \<^verbatim>\<open>||\<close> short-circuit, so the read happens when \<open>q\<close> is empty, or when \<open>q\<close> holds
  neither of the first two keywords. The promise and its delay of 1200 ms are not
  modelled: the function returns what the promise resolves with.
\<close>

definition mockAIResponse :: "jsstring \<Rightarrow> string \<Rightarrow> ctx option \<Rightarrow> js_error + response" where
  "mockAIResponse query lang c =
     (let q = toLowerCase (or_empty query) in
      case c of
        None \<Rightarrow>
          if q \<noteq> [] \<and> (str_includes q ''pesticide'' \<or> str_includes q ''leaf spot'')
          then Inr \<lparr>res_answer = leaf_spot_text, res_confidence = Some (85 / 100),
                    res_sources = Some [''Local Agri Dept Guidelines''], res_error = False\<rparr>
          else Inl TypeError
      | Some cx \<Rightarrow>
          let text0 =
            (if q = [] \<and> lastImage cx = None then please_type_text
             else if str_includes q ''pesticide'' \<or> str_includes q ''leaf spot''
                     \<or> (lastImage cx \<noteq> None \<and> str_includes q ''leaf'') then leaf_spot_text
             else if str_includes q ''price'' \<or> str_includes q ''market'' then market_text
             else if str_includes q ''weather'' \<or> str_includes q ''rain'' then weather_text
             else not_sure_text);
              text1 = (if location cx \<noteq> None then location_prefix @ text0 else text0)
          in Inr \<lparr>res_answer = text1, res_confidence = Some (85 / 100),
                   res_sources = Some [''Local Agri Dept Guidelines''], res_error = False\<rparr>)"

text \<open>
  \<^verbatim>\<open>getAIResponse(query, lang, imageFile, ctx)\<close>, lines 39 to 78. The form data it
  builds is used by the commented-out backend call only. What runs is the call of
  \<^const>\<open>mockAIResponse\<close> inside \<^verbatim>\<open>try\<close>, which is not given \<open>imageFile\<close>; an exception
  thrown there is caught and turned into the failure response.
\<close>

definition getAIResponse :: "jsstring \<Rightarrow> string \<Rightarrow> image option \<Rightarrow> ctx option \<Rightarrow> response" where
  "getAIResponse query lang imageFile c =
     (case mockAIResponse query lang c of
        Inr res \<Rightarrow> res
      | Inl err \<Rightarrow> \<lparr>res_answer = apology_text, res_confidence = None,
                    res_sources = None, res_error = True\<rparr>)"

section \<open>The typewriter effect (lines 185 to 200)\<close>

text \<open>
  The element \<^verbatim>\<open>responseText\<close> with the interval timers that write to it. Each timer
  started by \<^verbatim>\<open>typewriterEffect\<close> owns its text and its counter \<open>i\<close>; nothing but the
  timer's own callback ever clears it, so several timers may be alive at once.
\<close>

record timer =
  t_text :: string
  t_i :: nat

record reveal =
  innerHTML :: string
  timers :: "timer list"

definition cursor :: string where
  \<open>cursor = ''<span class="cursor"></span>''\<close>

definition typewriterEffect :: "string \<Rightarrow> reveal \<Rightarrow> reveal" where
  "typewriterEffect txt r =
     r\<lparr>innerHTML := cursor, timers := timers r @ [\<lparr>t_text = txt, t_i = 0\<rparr>]\<rparr>"

text \<open>
  One firing of the callback of the \<open>k\<close>-th live timer (the arrow function of lines 191
  to 199). A timer that was cleared does not fire again: \<open>k\<close> out of range changes
  nothing.
\<close>

definition typing :: "nat \<Rightarrow> reveal \<Rightarrow> reveal" where
  "typing k r =
     (if k < length (timers r) then
        (let t = timers r ! k in
         if t_i t < length (t_text t)
         then r\<lparr>innerHTML := take (t_i t + 1) (t_text t) @ cursor,
                 timers := (timers r)[k := t\<lparr>t_i := t_i t + 1\<rparr>]\<rparr>
         else r\<lparr>innerHTML := t_text t,
                 timers := take k (timers r) @ drop (Suc k) (timers r)\<rparr>)
      else r)"

section \<open>The history cache (lines 22 to 26, 149 to 153 and 162 to 179)\<close>

text \<open>A history record \<^verbatim>\<open>{ q, lang, ts, answer }\<close>; \<open>ts\<close> is \<^verbatim>\<open>Date.now()\<close>, in milliseconds.\<close>

record hrec =
  rec_q :: string
  rec_lang :: string
  rec_ts :: nat
  rec_answer :: string

text \<open>
  \<^verbatim>\<open>renderHistory\<close>. The element \<^verbatim>\<open>historyList\<close> is given either markup (the
  placeholder for an empty history) or one child \<^verbatim>\<open>div.history-item\<close> for each record,
  written here as the markup assigned to the child. The text of a date,
  \<^verbatim>\<open>new Date(item.ts).toLocaleString()\<close>, depends on the browser's locale and time zone:
  it is the parameter \<open>fmt\<close>.
\<close>

record history_view =
  list_innerHTML :: string
  list_children :: "string list"

definition item_markup :: "string \<Rightarrow> string \<Rightarrow> string \<Rightarrow> string" where
  \<open>item_markup fq fts fa =
     [CHR 0x0A] @ ''      <div class="q">'' @ fq @ ''</div>'' @
     [CHR 0x0A] @ ''      <div class="ts">'' @ fts @ ''</div>'' @
     [CHR 0x0A] @ ''      <div class="a">'' @ fa @ ''</div>''\<close>

definition render_item :: "(nat \<Rightarrow> string) \<Rightarrow> hrec \<Rightarrow> string" where
  "render_item fmt item =
     item_markup
       (if escapeHtml (Str (rec_q item)) = [] then ''Image Query'' else escapeHtml (Str (rec_q item)))
       (fmt (rec_ts item))
       (escapeHtml (Str (rec_answer item)))"

definition no_recent_markup :: string where
  \<open>no_recent_markup = ''<div class="meta" style="padding: 10px;">No recent queries.</div>''\<close>

definition renderHistory :: "(nat \<Rightarrow> string) \<Rightarrow> hrec list \<Rightarrow> history_view" where
  "renderHistory fmt history =
     (if length history = 0
      then \<lparr>list_innerHTML = no_recent_markup, list_children = []\<rparr>
      else \<lparr>list_innerHTML = [], list_children = map (render_item fmt) (rev history)\<rparr>)"

text \<open>
  \<^verbatim>\<open>JSON.stringify(context.history)\<close>: an array of objects with the four properties in
  the order of their creation. A string is quoted, with the quote and the backslash
  escaped by a backslash and the control characters below 0x20 written as the short
  escapes or as \<^verbatim>\<open>\u00XX\<close>; an integer is written in decimal.
\<close>

function str_nat :: "nat \<Rightarrow> string" where
  "str_nat n =
     (if n < 10 then [''0123456789'' ! n]
      else str_nat (n div 10) @ [''0123456789'' ! (n mod 10)])"
  by pat_completeness auto
termination
  by (relation "measure id") auto

declare str_nat.simps [simp del]

definition control_escapes :: "(char \<times> string) list" where
  "control_escapes =
     [(CHR 0x00, ''u0000''), (CHR 0x01, ''u0001''), (CHR 0x02, ''u0002''), (CHR 0x03, ''u0003''),
      (CHR 0x04, ''u0004''), (CHR 0x05, ''u0005''), (CHR 0x06, ''u0006''), (CHR 0x07, ''u0007''),
      (CHR 0x08, ''b''), (CHR 0x09, ''t''), (CHR 0x0A, ''n''), (CHR 0x0B, ''u000b''),
      (CHR 0x0C, ''f''), (CHR 0x0D, ''r''), (CHR 0x0E, ''u000e''), (CHR 0x0F, ''u000f''),
      (CHR 0x10, ''u0010''), (CHR 0x11, ''u0011''), (CHR 0x12, ''u0012''), (CHR 0x13, ''u0013''),
      (CHR 0x14, ''u0014''), (CHR 0x15, ''u0015''), (CHR 0x16, ''u0016''), (CHR 0x17, ''u0017''),
      (CHR 0x18, ''u0018''), (CHR 0x19, ''u0019''), (CHR 0x1A, ''u001a''), (CHR 0x1B, ''u001b''),
      (CHR 0x1C, ''u001c''), (CHR 0x1D, ''u001d''), (CHR 0x1E, ''u001e''), (CHR 0x1F, ''u001f''),
      (CHR 0x22, [CHR 0x22]), (CHR 0x5C, [CHR 0x5C])]"

definition quote_char :: "char \<Rightarrow> string" where
  "quote_char c = (case map_of control_escapes c of Some e \<Rightarrow> CHR 0x5C # e | None \<Rightarrow> [c])"

definition quote :: "string \<Rightarrow> string" where
  "quote s = [CHR 0x22] @ concat (map quote_char s) @ [CHR 0x22]"

definition stringify_rec :: "hrec \<Rightarrow> string" where
  "stringify_rec r =
     ''{'' @ quote ''q'' @ '':'' @ quote (rec_q r) @ '','' @
     quote ''lang'' @ '':'' @ quote (rec_lang r) @ '','' @
     quote ''ts'' @ '':'' @ str_nat (rec_ts r) @ '','' @
     quote ''answer'' @ '':'' @ quote (rec_answer r) @ ''}''"

fun join_comma :: "string list \<Rightarrow> string" where
  "join_comma [] = []"
| "join_comma [x] = x"
| "join_comma (x # y # ys) = x @ '','' @ join_comma (y # ys)"

definition JSON_stringify :: "hrec list \<Rightarrow> string" where
  "JSON_stringify history = ''['' @ join_comma (map stringify_rec history) @ '']''"

section \<open>JSON.parse and the history read at startup (line 25)\<close>

text \<open>
  \<^verbatim>\<open>JSON.parse\<close> is the browser's; it is modelled here after the JSON grammar, as a lexer
  followed by a parser with an explicit stack. A number is kept as its literal text (its
  value as a floating-point number is not modelled), and the members of an object are
  kept in the order of the text.
\<close>

datatype json =
    JNull | JBool bool | JNumber string | JString string
  | JArray "json list" | JObject "(string \<times> json) list"

datatype token =
    LBrace | RBrace | LBrack | RBrack | Colon | Comma
  | TString string | TNumber string | TTrue | TFalse | TNull

text \<open>
  An escape \<^verbatim>\<open>\uXXXX\<close> in a string: four hexadecimal digits, here each with its four
  bits, the lowest first. A code unit of 0x0100 and above has no \<^typ>\<open>char\<close>; the model
  answers \<^const>\<open>Not_modelled\<close> for it rather than a wrong result.
\<close>

definition hex_digits :: "(char \<times> bool \<times> bool \<times> bool \<times> bool) list" where
  "hex_digits =
     [(CHR ''0'', False, False, False, False), (CHR ''1'', True, False, False, False),
      (CHR ''2'', False, True, False, False), (CHR ''3'', True, True, False, False),
      (CHR ''4'', False, False, True, False), (CHR ''5'', True, False, True, False),
      (CHR ''6'', False, True, True, False), (CHR ''7'', True, True, True, False),
      (CHR ''8'', False, False, False, True), (CHR ''9'', True, False, False, True),
      (CHR ''a'', False, True, False, True), (CHR ''b'', True, True, False, True),
      (CHR ''c'', False, False, True, True), (CHR ''d'', True, False, True, True),
      (CHR ''e'', False, True, True, True), (CHR ''f'', True, True, True, True),
      (CHR ''A'', False, True, False, True), (CHR ''B'', True, True, False, True),
      (CHR ''C'', False, False, True, True), (CHR ''D'', True, False, True, True),
      (CHR ''E'', False, True, True, True), (CHR ''F'', True, True, True, True)]"

definition unicode_escape :: "char \<Rightarrow> char \<Rightarrow> char \<Rightarrow> char \<Rightarrow> js_error + char" where
  "unicode_escape h1 h2 h3 h4 =
     (case (map_of hex_digits h1, map_of hex_digits h2, map_of hex_digits h3, map_of hex_digits h4) of
        (Some a, Some b, Some (c0, c1, c2, c3), Some (d0, d1, d2, d3)) \<Rightarrow>
          if a = (False, False, False, False) \<and> b = (False, False, False, False)
          then Inr (Char d0 d1 d2 d3 c0 c1 c2 c3)
          else Inl Not_modelled
      | _ \<Rightarrow> Inl SyntaxError)"

definition simple_escapes :: "(char \<times> char) list" where
  "simple_escapes =
     [(CHR 0x22, CHR 0x22), (CHR 0x5C, CHR 0x5C), (CHR ''/'', CHR ''/''), (CHR ''b'', CHR 0x08),
      (CHR ''f'', CHR 0x0C), (CHR ''n'', CHR 0x0A), (CHR ''r'', CHR 0x0D), (CHR ''t'', CHR 0x09)]"

definition control_chars :: "char list" where
  "control_chars =
     [CHR 0x00, CHR 0x01, CHR 0x02, CHR 0x03, CHR 0x04, CHR 0x05, CHR 0x06, CHR 0x07,
      CHR 0x08, CHR 0x09, CHR 0x0A, CHR 0x0B, CHR 0x0C, CHR 0x0D, CHR 0x0E, CHR 0x0F,
      CHR 0x10, CHR 0x11, CHR 0x12, CHR 0x13, CHR 0x14, CHR 0x15, CHR 0x16, CHR 0x17,
      CHR 0x18, CHR 0x19, CHR 0x1A, CHR 0x1B, CHR 0x1C, CHR 0x1D, CHR 0x1E, CHR 0x1F]"

text \<open>
  The characters of a string literal after its opening quote, up to the closing quote:
  the string and the rest of the text. A control character must be escaped.
\<close>

fun lex_string :: "string \<Rightarrow> js_error + string \<times> string" where
  "lex_string [] = Inl SyntaxError"
| "lex_string (c # cs) =
     (if c = CHR 0x22 then Inr ([], cs)
      else if c = CHR 0x5C then
        (case cs of
           [] \<Rightarrow> Inl SyntaxError
         | e # cs1 \<Rightarrow>
             (if e = CHR ''u'' then
                (case cs1 of
                   h1 # h2 # h3 # h4 # cs2 \<Rightarrow>
                     (case unicode_escape h1 h2 h3 h4 of
                        Inl err \<Rightarrow> Inl err
                      | Inr ch \<Rightarrow>
                          (case lex_string cs2 of
                             Inl err \<Rightarrow> Inl err
                           | Inr (s, r) \<Rightarrow> Inr (ch # s, r)))
                 | _ \<Rightarrow> Inl SyntaxError)
              else
                (case map_of simple_escapes e of
                   None \<Rightarrow> Inl SyntaxError
                 | Some ch \<Rightarrow>
                     (case lex_string cs1 of
                        Inl err \<Rightarrow> Inl err
                      | Inr (s, r) \<Rightarrow> Inr (ch # s, r)))))
      else if c \<in> set control_chars then Inl SyntaxError
      else (case lex_string cs of
              Inl err \<Rightarrow> Inl err
            | Inr (s, r) \<Rightarrow> Inr (c # s, r)))"

text \<open>
  A number: an optional minus sign, digits with no leading zero, an optional fraction and
  an optional exponent. The result is the literal and the rest of the text.
\<close>

definition digit_chars :: "char list" where
  "digit_chars = ''0123456789''"

definition is_digit :: "char \<Rightarrow> bool" where
  "is_digit c \<longleftrightarrow> c \<in> set digit_chars"

definition lex_exponent :: "string \<Rightarrow> (string \<times> string) option" where
  "lex_exponent cs =
     (case cs of
        [] \<Rightarrow> Some ([], cs)
      | e # cs1 \<Rightarrow>
          if e = CHR ''e'' \<or> e = CHR ''E'' then
            (let sgn = (case cs1 of [] \<Rightarrow> [] | s # _ \<Rightarrow> if s = CHR ''+'' \<or> s = CHR ''-'' then [s] else []);
                 cs2 = drop (length sgn) cs1;
                 ds = takeWhile is_digit cs2
             in if ds = [] then None else Some (e # sgn @ ds, dropWhile is_digit cs2))
          else Some ([], cs))"

definition lex_fraction :: "string \<Rightarrow> (string \<times> string) option" where
  "lex_fraction cs =
     (case cs of
        [] \<Rightarrow> Some ([], cs)
      | p # cs1 \<Rightarrow>
          if p = CHR ''.'' then
            (let ds = takeWhile is_digit cs1
             in if ds = [] then None else Some (p # ds, dropWhile is_digit cs1))
          else Some ([], cs))"

definition lex_number :: "string \<Rightarrow> (string \<times> string) option" where
  "lex_number cs =
     (let sgn = (case cs of [] \<Rightarrow> [] | s # _ \<Rightarrow> if s = CHR ''-'' then [s] else []);
          cs1 = drop (length sgn) cs;
          ds = takeWhile is_digit cs1
      in if ds = [] \<or> (hd ds = CHR ''0'' \<and> length ds > 1) then None
         else
           (case lex_fraction (dropWhile is_digit cs1) of
              None \<Rightarrow> None
            | Some (fr, cs2) \<Rightarrow>
                (case lex_exponent cs2 of
                   None \<Rightarrow> None
                 | Some (ex, cs3) \<Rightarrow> Some (sgn @ ds @ fr @ ex, cs3))))"

text \<open>
  The lexer. The two tests on the length of the rest never fail (lemmas
  \<open>lex_string_shorter\<close> and \<open>lex_number_shorter\<close> below); they make the recursion
  terminate by the length of the text alone.
\<close>

definition json_space :: "char list" where
  "json_space = [CHR 0x20, CHR 0x09, CHR 0x0A, CHR 0x0D]"

definition punctuation :: "(char \<times> token) list" where
  "punctuation =
     [(CHR ''{'', LBrace), (CHR ''}'', RBrace), (CHR ''['', LBrack), (CHR '']'', RBrack),
      (CHR '':'', Colon), (CHR '','', Comma)]"

definition literals :: "(string \<times> token) list" where
  "literals = [(''true'', TTrue), (''false'', TFalse), (''null'', TNull)]"

definition cons_token :: "token \<Rightarrow> js_error + token list \<Rightarrow> js_error + token list" where
  "cons_token t r = (case r of Inl err \<Rightarrow> Inl err | Inr ts \<Rightarrow> Inr (t # ts))"

function lex :: "string \<Rightarrow> js_error + token list" where
  "lex [] = Inr []"
| "lex (c # cs) =
     (if c \<in> set json_space then lex cs
      else case map_of punctuation c of
        Some t \<Rightarrow> cons_token t (lex cs)
      | None \<Rightarrow>
          if c = CHR 0x22 then
            (case lex_string cs of
               Inl err \<Rightarrow> Inl err
             | Inr (s, r) \<Rightarrow> if length r \<le> length cs then cons_token (TString s) (lex r) else Inl SyntaxError)
          else if c = CHR ''-'' \<or> is_digit c then
            (case lex_number (c # cs) of
               None \<Rightarrow> Inl SyntaxError
             | Some (n, r) \<Rightarrow> if length r \<le> length cs then cons_token (TNumber n) (lex r) else Inl SyntaxError)
          else
            (case find (\<lambda>(w, t). prefix w (c # cs)) literals of
               None \<Rightarrow> Inl SyntaxError
             | Some (w, t) \<Rightarrow> cons_token t (lex (drop (length w - 1) cs))))"
  by pat_completeness auto
termination
  by (relation "measure length") auto

text \<open>
  The parser reads the tokens from left to right. Its stack holds the arrays and objects
  that are still open, the innermost first: an array with its elements so far, an object
  with its members so far, or an object whose next key has been read (elements and
  members in reverse order). The mode says what may come next.
\<close>

datatype frame = Arr "json list" | Obj "(string \<times> json) list" | Key "(string \<times> json) list" string

datatype mode =
    Value | Value_or_close | Key_or_close | Key_name | Colon_next | Comma_or_close | Done json

definition reduce :: "json \<Rightarrow> frame list \<Rightarrow> js_error + mode \<times> frame list" where
  "reduce v st =
     (case st of
        [] \<Rightarrow> Inr (Done v, [])
      | Arr es # st' \<Rightarrow> Inr (Comma_or_close, Arr (v # es) # st')
      | Key ms k # st' \<Rightarrow> Inr (Comma_or_close, Obj ((k, v) # ms) # st')
      | Obj ms # st' \<Rightarrow> Inl SyntaxError)"

definition begin_value :: "token \<Rightarrow> frame list \<Rightarrow> js_error + mode \<times> frame list" where
  "begin_value t st =
     (case t of
        TString s \<Rightarrow> reduce (JString s) st
      | TNumber n \<Rightarrow> reduce (JNumber n) st
      | TTrue \<Rightarrow> reduce (JBool True) st
      | TFalse \<Rightarrow> reduce (JBool False) st
      | TNull \<Rightarrow> reduce JNull st
      | LBrack \<Rightarrow> Inr (Value_or_close, Arr [] # st)
      | LBrace \<Rightarrow> Inr (Key_or_close, Obj [] # st)
      | _ \<Rightarrow> Inl SyntaxError)"

definition expect_key :: "token \<Rightarrow> frame list \<Rightarrow> js_error + mode \<times> frame list" where
  "expect_key t st =
     (case (t, st) of
        (TString k, Obj ms # st') \<Rightarrow> Inr (Colon_next, Key ms k # st')
      | _ \<Rightarrow> Inl SyntaxError)"

definition close :: "frame list \<Rightarrow> js_error + mode \<times> frame list" where
  "close st =
     (case st of
        Arr es # st' \<Rightarrow> reduce (JArray (rev es)) st'
      | Obj ms # st' \<Rightarrow> reduce (JObject (rev ms)) st'
      | _ \<Rightarrow> Inl SyntaxError)"

definition step :: "token \<Rightarrow> mode \<times> frame list \<Rightarrow> js_error + mode \<times> frame list" where
  "step t ms =
     (case ms of (m, st) \<Rightarrow>
        (case m of
           Value \<Rightarrow> begin_value t st
         | Value_or_close \<Rightarrow> if t = RBrack then close st else begin_value t st
         | Key_or_close \<Rightarrow> if t = RBrace then close st else expect_key t st
         | Key_name \<Rightarrow> expect_key t st
         | Colon_next \<Rightarrow> if t = Colon then Inr (Value, st) else Inl SyntaxError
         | Comma_or_close \<Rightarrow>
             (case st of
                Arr es # st' \<Rightarrow>
                  if t = Comma then Inr (Value, st) else if t = RBrack then close st
                  else Inl SyntaxError
              | Obj ms # st' \<Rightarrow>
                  if t = Comma then Inr (Key_name, st) else if t = RBrace then close st
                  else Inl SyntaxError
              | _ \<Rightarrow> Inl SyntaxError)
         | Done v \<Rightarrow> Inl SyntaxError))"

fun parse_tokens :: "token list \<Rightarrow> mode \<times> frame list \<Rightarrow> js_error + json" where
  "parse_tokens [] ms = (case ms of (Done v, []) \<Rightarrow> Inr v | _ \<Rightarrow> Inl SyntaxError)"
| "parse_tokens (t # ts) ms =
     (case step t ms of Inl err \<Rightarrow> Inl err | Inr ms' \<Rightarrow> parse_tokens ts ms')"

text \<open>
  \<^verbatim>\<open>JSON.parse(s)\<close>; \<^term>\<open>Inl SyntaxError\<close> is the exception \<^verbatim>\<open>SyntaxError\<close>.
\<close>

definition JSON_parse :: "string \<Rightarrow> js_error + json" where
  "JSON_parse s =
     (case lex s of Inl err \<Rightarrow> Inl err | Inr ts \<Rightarrow> parse_tokens ts (Value, []))"

text \<open>
  Line 25, \<^verbatim>\<open>JSON.parse(localStorage.getItem('kr_history') || '[]')\<close>: \<^verbatim>\<open>getItem\<close>
  returns \<^verbatim>\<open>null\<close> for a key that is absent, and \<^verbatim>\<open>null\<close> and the empty string are
  falsy. The statement is at the top level of the script with no \<^verbatim>\<open>try\<close> around it: an
  exception of \<^verbatim>\<open>JSON.parse\<close> ends the script there.
\<close>

definition load_history :: "(string \<rightharpoonup> string) \<Rightarrow> js_error + json" where
  "load_history storage =
     JSON_parse (case storage ''kr_history'' of
                   None \<Rightarrow> ''[]''
                 | Some s \<Rightarrow> if s = [] then ''[]'' else s)"

text \<open>The JSON value of a history record, and the tokens of its text.\<close>

definition json_of_rec :: "hrec \<Rightarrow> json" where
  "json_of_rec r =
     JObject [(''q'', JString (rec_q r)), (''lang'', JString (rec_lang r)),
              (''ts'', JNumber (str_nat (rec_ts r))), (''answer'', JString (rec_answer r))]"

declare lex.simps [simp del]

definition rec_tokens :: "hrec \<Rightarrow> token list" where
  "rec_tokens r =
     [LBrace, TString ''q'', Colon, TString (rec_q r), Comma,
      TString ''lang'', Colon, TString (rec_lang r), Comma,
      TString ''ts'', Colon, TNumber (str_nat (rec_ts r)), Comma,
      TString ''answer'', Colon, TString (rec_answer r), RBrace]"

fun tokens_of_list :: "hrec list \<Rightarrow> token list" where
  "tokens_of_list [] = []"
| "tokens_of_list [r] = rec_tokens r"
| "tokens_of_list (r # r' # rs) = rec_tokens r @ Comma # tokens_of_list (r' # rs)"

section \<open>The page and handleQuery (lines 113 to 155)\<close>

text \<open>
  What \<^verbatim>\<open>handleQuery\<close> reads and writes: the \<^verbatim>\<open>context\<close> object, the storage, the form
  controls and the elements it shows and hides. Two logs make its calls visible: the
  messages given to \<^verbatim>\<open>alert\<close> and the calls of the fetcher.
\<close>

datatype meta_text = Meta_empty | Analyzing | An_error_occurred | Answer_confidence "real option"

record fetch_call =
  call_query :: string
  call_lang :: string
  call_imageFile :: "image option"
  call_ctx :: ctx

record app =
  context_location :: "coords option"
  context_lastImage :: "image option"
  context_history :: "hrec list"
  localStorage :: "string \<rightharpoonup> string"
  queryText_value :: string
  langSelect_value :: string
  sendBtn_disabled :: bool
  sendBtn_textContent :: string
  responseArea_hidden :: bool
  loader_hidden :: bool
  responseActions_hidden :: bool
  responseMeta :: meta_text
  responseText :: reveal
  historyList :: history_view
  alerts :: "string list"
  fetches :: "fetch_call list"

text \<open>
  Lines 114 to 133, up to the call whose result is awaited. The result is the page as
  it stands while the call is pending, with the call; or, when there is neither text nor
  image, the page after the alert, with no call.
\<close>

definition handleQuery_begin :: "app \<Rightarrow> app \<times> fetch_call option" where
  "handleQuery_begin st =
     (let txt = trim (queryText_value st);
          lang = langSelect_value st;
          imageFile = context_lastImage st
      in if txt = [] \<and> imageFile = None
         then (st\<lparr>alerts := alerts st @ [''Please enter a question or upload an image.'']\<rparr>, None)
         else
           (let call = \<lparr>call_query = txt, call_lang = lang, call_imageFile = imageFile,
                         call_ctx = \<lparr>location = context_location st, lastImage = None\<rparr>\<rparr>
            in (st\<lparr>sendBtn_disabled := True,
                    sendBtn_textContent := ''Analyzing...'',
                    responseArea_hidden := False,
                    responseText := (responseText st)\<lparr>innerHTML := []\<rparr>,
                    loader_hidden := False,
                    responseActions_hidden := True,
                    responseMeta := Analyzing,
                    fetches := fetches st @ [call]\<rparr>, Some call)))"

text \<open>
  Lines 135 to 154, once the call has resolved with \<open>res\<close>. \<open>now\<close> is what
  \<^verbatim>\<open>Date.now()\<close> returns then. \<^verbatim>\<open>push\<close> appends, and \<^verbatim>\<open>shift\<close>, run once when the length
  is over 10, removes the first record.
\<close>

definition handleQuery_resume ::
    "nat \<Rightarrow> (nat \<Rightarrow> string) \<Rightarrow> fetch_call \<Rightarrow> response \<Rightarrow> app \<Rightarrow> app" where
  "handleQuery_resume now fmt call res st =
     (let st1 = st\<lparr>loader_hidden := True, sendBtn_disabled := False,
                    sendBtn_textContent := ''Ask Now''\<rparr>
      in if res_error res
         then st1\<lparr>responseMeta := An_error_occurred,
                  responseText := typewriterEffect (res_answer res) (responseText st1)\<rparr>
         else
           (let rec = \<lparr>rec_q = call_query call, rec_lang = call_lang call, rec_ts = now,
                        rec_answer = res_answer res\<rparr>;
                pushed = context_history st1 @ [rec];
                history = (if length pushed > 10 then tl pushed else pushed)
            in st1\<lparr>responseMeta := Answer_confidence (res_confidence res),
                    responseText := typewriterEffect (res_answer res) (responseText st1),
                    responseActions_hidden := False,
                    context_history := history,
                    localStorage := (localStorage st1)(''kr_history'' \<mapsto> JSON_stringify history),
                    historyList := renderHistory fmt history\<rparr>))"

text \<open>\<^verbatim>\<open>handleQuery\<close> as a whole, with the fetcher of the script.\<close>

definition handleQuery :: "nat \<Rightarrow> (nat \<Rightarrow> string) \<Rightarrow> app \<Rightarrow> app" where
  "handleQuery now fmt st =
     (case handleQuery_begin st of
        (st', None) \<Rightarrow> st'
      | (st', Some call) \<Rightarrow>
          handleQuery_resume now fmt call
            (getAIResponse (Str (call_query call)) (call_lang call) (call_imageFile call)
               (Some (call_ctx call))) st')"

text \<open>
  A submission: the user puts \<open>txt\<close> into the text area, picks the language and presses
  the button at time \<open>now\<close>.
\<close>

definition submit :: "(nat \<Rightarrow> string) \<Rightarrow> string \<times> string \<times> nat \<Rightarrow> app \<Rightarrow> app" where
  "submit fmt inp st =
     (case inp of (txt, lang, now) \<Rightarrow>
        handleQuery now fmt (st\<lparr>queryText_value := txt, langSelect_value := lang\<rparr>))"

text \<open>
  The record that a submission of \<open>(txt, lang, now)\<close> saves when the location is \<open>loc\<close>:
  \<^verbatim>\<open>{ q: text, lang, ts: Date.now(), answer: res.answer }\<close> of line 149, with the answer
  of the call of line 133.
\<close>

definition record_of :: "coords option \<Rightarrow> string \<times> string \<times> nat \<Rightarrow> hrec" where
  "record_of loc inp =
     (case inp of (txt, lang, now) \<Rightarrow>
        \<lparr>rec_q = trim txt, rec_lang = lang, rec_ts = now,
         rec_answer = res_answer (getAIResponse (Str (trim txt)) lang None
                        (Some \<lparr>location = loc, lastImage = None\<rparr>))\<rparr>)"

text \<open>Eleven submissions with distinct texts, for the examples.\<close>

definition eleven_inputs :: "(string \<times> string \<times> nat) list" where
  "eleven_inputs =
     [(''a'', ''en-IN'', 1), (''b'', ''en-IN'', 2), (''c'', ''en-IN'', 3), (''d'', ''en-IN'', 4),
      (''e'', ''en-IN'', 5), (''f'', ''en-IN'', 6), (''g'', ''en-IN'', 7), (''h'', ''en-IN'', 8),
      (''i'', ''en-IN'', 9), (''j'', ''en-IN'', 10), (''k'', ''en-IN'', 11)]"

text \<open>
  A page for the examples: as it stands after loading with nothing stored, no image
  chosen and no location known.
\<close>

definition example_page :: app where
  "example_page =
     \<lparr>context_location = None, context_lastImage = None, context_history = [],
      localStorage = Map.empty, queryText_value = [], langSelect_value = ''en-IN'',
      sendBtn_disabled = False, sendBtn_textContent = ''Ask Now'',
      responseArea_hidden = True, loader_hidden = True, responseActions_hidden = True,
      responseMeta = Meta_empty, responseText = \<lparr>innerHTML = [], timers = []\<rparr>,
      historyList = \<lparr>list_innerHTML = no_recent_markup, list_children = []\<rparr>,
      alerts = [], fetches = []\<rparr>"

section \<open>Facts about escapeHtml\<close>

lemma replace_char_cases:
  "replace_char m = ''&amp;'' \<and> m = CHR ''&'' \<or> replace_char m = ''&lt;'' \<and> m = CHR ''<'' \<or>
   replace_char m = ''&gt;'' \<and> m = CHR ''>'' \<or> replace_char m = ''&quot;'' \<and> m = CHR 0x22 \<or>
   replace_char m = ''&#39;'' \<and> m = CHR 0x27 \<or>
   replace_char m = [m] \<and> m \<notin> set special_chars"
  by (simp add: replace_char_def special_chars_def entities_def)

lemma replace_char_no_special:
  "c \<in> set (replace_char m) \<Longrightarrow>
   c \<noteq> CHR ''<'' \<and> c \<noteq> CHR ''>'' \<and> c \<noteq> CHR 0x22 \<and> c \<noteq> CHR 0x27"
  using replace_char_cases [of m] by (auto simp: special_chars_def)

lemma replace_char_amp:
  "i < length (replace_char m) \<Longrightarrow> replace_char m ! i = CHR ''&'' \<Longrightarrow>
   i = 0 \<and> replace_char m \<in> snd ` set entities"
  using replace_char_cases [of m]
  by (auto simp: special_chars_def entities_def nth_Cons' split: if_splits)

lemma concat_amp:
  "i < length (concat (map replace_char s)) \<Longrightarrow> concat (map replace_char s) ! i = CHR ''&'' \<Longrightarrow>
   entity_at (concat (map replace_char s)) i"
proof (induction s arbitrary: i)
  case Nil
  then show ?case by simp
next
  case (Cons m s)
  let ?b = "replace_char m" and ?r = "concat (map replace_char s)"
  show ?case
  proof (cases "i < length ?b")
    case True
    with Cons.prems have "?b ! i = CHR ''&''" by (simp add: nth_append)
    with True have "i = 0" and "?b \<in> snd ` set entities"
      using replace_char_amp by blast+
    then show ?thesis unfolding entity_at_def by (intro bexI [of _ ?b]) simp_all
  next
    case False
    with Cons.prems have "i - length ?b < length ?r" and "?r ! (i - length ?b) = CHR ''&''"
      by (auto simp: nth_append)
    then have "entity_at ?r (i - length ?b)" by (rule Cons.IH)
    with False show ?thesis unfolding entity_at_def by auto
  qed
qed

lemma escapeHtml_no_special:
  "c \<in> set (escapeHtml s) \<Longrightarrow>
   c \<noteq> CHR ''<'' \<and> c \<noteq> CHR ''>'' \<and> c \<noteq> CHR 0x22 \<and> c \<noteq> CHR 0x27"
  unfolding escapeHtml_def using replace_char_no_special by auto

subsection \<open>C9: escapeHtml is total and neutralizing\<close>

text \<open>
  C9. \<^const>\<open>escapeHtml\<close> is total and neutralizing. It is defined on every argument:
  \<^verbatim>\<open>undefined\<close> and \<^verbatim>\<open>null\<close> give the empty string, and for every argument the result
  holds none of the characters \<^verbatim>\<open><\<close>, \<^verbatim>\<open>>\<close>, \<^verbatim>\<open>"\<close> and \<^verbatim>\<open>'\<close>, and wherever it holds
  \<^verbatim>\<open>&\<close> one of the five replacement entities starts there. So the result cannot open
  a tag or close an attribute.
\<close>

theorem escapeHtml_total_neutralizing:
  "escapeHtml Undefined = [] \<and> escapeHtml Null = [] \<and>
   CHR ''<'' \<notin> set (escapeHtml s) \<and> CHR ''>'' \<notin> set (escapeHtml s) \<and>
   CHR 0x22 \<notin> set (escapeHtml s) \<and> CHR 0x27 \<notin> set (escapeHtml s) \<and>
   (\<forall>i < length (escapeHtml s). escapeHtml s ! i = CHR ''&'' \<longrightarrow> entity_at (escapeHtml s) i)"
proof -
  have "escapeHtml Undefined = []" and "escapeHtml Null = []"
    by (simp_all add: escapeHtml_def)
  moreover have "CHR ''<'' \<notin> set (escapeHtml s)" "CHR ''>'' \<notin> set (escapeHtml s)"
    "CHR 0x22 \<notin> set (escapeHtml s)" "CHR 0x27 \<notin> set (escapeHtml s)"
    using escapeHtml_no_special [of _ s] by blast+
  moreover have "\<forall>i < length (escapeHtml s). escapeHtml s ! i = CHR ''&'' \<longrightarrow> entity_at (escapeHtml s) i"
    unfolding escapeHtml_def using concat_amp by blast
  ultimately show ?thesis by blast
qed

theorem escapeHtml_total_neutralizing_witness:
  "escapeHtml (Str ''<a href='x'>T&C</a>'') = ''&lt;a href=&#39;x&#39;&gt;T&amp;C&lt;/a&gt;'' \<and>
   CHR ''<'' \<notin> set (escapeHtml (Str ''<a href='x'>T&C</a>'')) \<and>
   entity_at (escapeHtml (Str ''<a href='x'>T&C</a>'')) 0"
proof -
  have e: "escapeHtml (Str ''<a href='x'>T&C</a>'') = ''&lt;a href=&#39;x&#39;&gt;T&amp;C&lt;/a&gt;''"
    by (simp add: escapeHtml_def replace_char_def special_chars_def entities_def)
  have "0 < length (escapeHtml (Str ''<a href='x'>T&C</a>''))"
    and "escapeHtml (Str ''<a href='x'>T&C</a>'') ! 0 = CHR ''&''"
    by (simp_all add: e)
  with escapeHtml_total_neutralizing [of "Str ''<a href='x'>T&C</a>''"] e
  show ?thesis by blast
qed

section \<open>A fact about push and shift\<close>

lemma shift_snoc: "10 < length (xs @ [r]) \<Longrightarrow> tl (xs @ [r]) = tl xs @ [r]"
  by (cases xs) auto

section \<open>Facts about the answer texts\<close>

lemmas lower_simps = toLowerCase_def toLowerCase_char_def upper_chars_def lower_chars_def
lemmas incl_simps = str_includes_def sublist_Cons_right

lemma str_includes_append_left: "str_includes t k \<Longrightarrow> str_includes (p @ t) k"
  unfolding str_includes_def sublist_def by (metis append.assoc)

lemma str_includes_nonempty: "str_includes q k \<Longrightarrow> k \<noteq> [] \<Longrightarrow> q \<noteq> []"
  by (auto simp: str_includes_def)

lemma leaf_spot_text_mentions: "str_includes leaf_spot_text ''Leaf spot''"
  by (simp add: incl_simps leaf_spot_text_def)

lemma market_text_mentions: "str_includes market_text ''mandi''" "str_includes market_text ''market''"
  by (simp_all add: incl_simps market_text_def)

lemma weather_text_mentions: "str_includes weather_text ''Weather''" "str_includes weather_text ''spraying''"
  by (simp_all add: incl_simps weather_text_def)

lemma not_sure_text_mentions: "str_includes not_sure_text ''not sure''"
  by (simp add: incl_simps not_sure_text_def)

lemma leaf_spot_text_no_market:
  "\<not> str_includes leaf_spot_text ''mandi''" "\<not> str_includes leaf_spot_text ''market''"
  "\<not> str_includes leaf_spot_text ''Mandi''" "\<not> str_includes leaf_spot_text ''Market''"
  by (simp_all add: incl_simps leaf_spot_text_def)

lemma no_location_prefix:
  "\<not> prefix location_prefix please_type_text" "\<not> prefix location_prefix leaf_spot_text"
  "\<not> prefix location_prefix market_text" "\<not> prefix location_prefix weather_text"
  "\<not> prefix location_prefix not_sure_text"
  by (simp_all add: location_prefix_def please_type_text_def leaf_spot_text_def market_text_def
      weather_text_def not_sure_text_def)

section \<open>Claims about the fetcher\<close>

subsection \<open>C2: keyword routing\<close>

text \<open>
  C2 fails as stated: a query that holds \<^verbatim>\<open>price\<close> gets the market answer only
  when no earlier rule matches. \<^verbatim>\<open>pesticide price\<close> matches the first keyword rule and is
  answered with the leaf-spot text, which mentions neither a mandi nor a market.
\<close>

theorem mockAIResponse_price_counterexample:
  "str_includes (toLowerCase (or_empty (Str ''pesticide price''))) ''price'' \<and>
   mockAIResponse (Str ''pesticide price'') ''en-IN'' (Some \<lparr>location = None, lastImage = None\<rparr>)
     = Inr \<lparr>res_answer = leaf_spot_text, res_confidence = Some (85 / 100),
             res_sources = Some [''Local Agri Dept Guidelines''], res_error = False\<rparr> \<and>
   \<not> str_includes leaf_spot_text ''mandi'' \<and> \<not> str_includes leaf_spot_text ''market'' \<and>
   \<not> str_includes leaf_spot_text ''Mandi'' \<and> \<not> str_includes leaf_spot_text ''Market''"
  using leaf_spot_text_no_market
  by (simp add: mockAIResponse_def lower_simps incl_simps)

text \<open>
  C2, amended. The mocked fetcher routes by keyword and the first matching rule wins, in
  this order, on the lower-cased query \<open>q\<close>: (1) \<open>q\<close> empty and no image: the prompt for
  input; (2) \<open>q\<close> holds \<^verbatim>\<open>pesticide\<close> or \<^verbatim>\<open>leaf spot\<close>, or an image is present and \<open>q\<close>
  holds \<^verbatim>\<open>leaf\<close>: the leaf-spot answer, so every query that holds \<^verbatim>\<open>leaf spot\<close> is
  answered with a text that holds \<^verbatim>\<open>Leaf spot\<close>; (3) otherwise, \<open>q\<close> holds \<^verbatim>\<open>price\<close> or
  \<^verbatim>\<open>market\<close>: the answer that mentions the mandi and the market; (4) otherwise, \<open>q\<close>
  holds \<^verbatim>\<open>weather\<close> or \<^verbatim>\<open>rain\<close>: the answer that mentions the weather and spraying;
  (5) otherwise the fallback \<^verbatim>\<open>not sure\<close> message. Each answer follows the location
  prefix when a location is set.
\<close>

theorem mockAIResponse_first_match:
  "\<exists>r. mockAIResponse query lang (Some cx) = Inr r \<and>
     (let q = toLowerCase (or_empty query);
          pre = (if location cx \<noteq> None then location_prefix else []);
          empty_input = (q = [] \<and> lastImage cx = None);
          leaf = (str_includes q ''pesticide'' \<or> str_includes q ''leaf spot''
                   \<or> (lastImage cx \<noteq> None \<and> str_includes q ''leaf''));
          market = (str_includes q ''price'' \<or> str_includes q ''market'');
          weather = (str_includes q ''weather'' \<or> str_includes q ''rain'')
      in (empty_input \<longrightarrow> res_answer r = pre @ please_type_text) \<and>
         (str_includes q ''leaf spot'' \<longrightarrow>
            res_answer r = pre @ leaf_spot_text \<and> str_includes (res_answer r) ''Leaf spot'') \<and>
         (\<not> empty_input \<and> leaf \<longrightarrow> res_answer r = pre @ leaf_spot_text) \<and>
         (\<not> leaf \<and> market \<longrightarrow>
            res_answer r = pre @ market_text \<and> str_includes (res_answer r) ''mandi''
            \<and> str_includes (res_answer r) ''market'') \<and>
         (\<not> leaf \<and> \<not> market \<and> weather \<longrightarrow>
            res_answer r = pre @ weather_text \<and> str_includes (res_answer r) ''Weather''
            \<and> str_includes (res_answer r) ''spraying'') \<and>
         (\<not> empty_input \<and> \<not> leaf \<and> \<not> market \<and> \<not> weather \<longrightarrow>
            res_answer r = pre @ not_sure_text \<and> str_includes (res_answer r) ''not sure''))"
  using leaf_spot_text_mentions market_text_mentions weather_text_mentions not_sure_text_mentions
  by (auto simp: mockAIResponse_def Let_def str_includes_append_left dest: str_includes_nonempty)

theorem mockAIResponse_first_match_witness:
  "(\<exists>r. mockAIResponse (Str ''Leaf Spot on my tomato'') ''en-IN'' (Some \<lparr>location = None, lastImage = None\<rparr>) = Inr r
        \<and> res_answer r = leaf_spot_text \<and> str_includes (res_answer r) ''Leaf spot'') \<and>
   (\<exists>r. mockAIResponse (Str ''market price'') ''en-IN'' (Some \<lparr>location = None, lastImage = None\<rparr>) = Inr r
        \<and> res_answer r = market_text \<and> str_includes (res_answer r) ''mandi'') \<and>
   (\<exists>r. mockAIResponse (Str ''rain tomorrow'') ''en-IN'' (Some \<lparr>location = None, lastImage = None\<rparr>) = Inr r
        \<and> res_answer r = weather_text \<and> str_includes (res_answer r) ''spraying'') \<and>
   (\<exists>r. mockAIResponse (Str '''') ''en-IN'' (Some \<lparr>location = None, lastImage = None\<rparr>) = Inr r
        \<and> res_answer r = please_type_text) \<and>
   (\<exists>r. mockAIResponse (Str ''hello'') ''en-IN'' (Some \<lparr>location = None, lastImage = None\<rparr>) = Inr r
        \<and> res_answer r = not_sure_text)"
proof -
  let ?c = "\<lparr>location = None, lastImage = None\<rparr>"
  have "\<exists>r. mockAIResponse (Str ''Leaf Spot on my tomato'') ''en-IN'' (Some ?c) = Inr r
        \<and> res_answer r = leaf_spot_text \<and> str_includes (res_answer r) ''Leaf spot''"
    using mockAIResponse_first_match [of "Str ''Leaf Spot on my tomato''" "''en-IN''" ?c]
    by (auto simp: Let_def lower_simps incl_simps)
  moreover have "\<exists>r. mockAIResponse (Str ''market price'') ''en-IN'' (Some ?c) = Inr r
        \<and> res_answer r = market_text \<and> str_includes (res_answer r) ''mandi''"
    using mockAIResponse_first_match [of "Str ''market price''" "''en-IN''" ?c]
    by (auto simp: Let_def lower_simps incl_simps)
  moreover have "\<exists>r. mockAIResponse (Str ''rain tomorrow'') ''en-IN'' (Some ?c) = Inr r
        \<and> res_answer r = weather_text \<and> str_includes (res_answer r) ''spraying''"
    using mockAIResponse_first_match [of "Str ''rain tomorrow''" "''en-IN''" ?c]
    by (auto simp: Let_def lower_simps incl_simps)
  moreover have "\<exists>r. mockAIResponse (Str '''') ''en-IN'' (Some ?c) = Inr r
        \<and> res_answer r = please_type_text"
    using mockAIResponse_first_match [of "Str ''''" "''en-IN''" ?c]
    by (auto simp: Let_def lower_simps incl_simps)
  moreover have "\<exists>r. mockAIResponse (Str ''hello'') ''en-IN'' (Some ?c) = Inr r
        \<and> res_answer r = not_sure_text"
    using mockAIResponse_first_match [of "Str ''hello''" "''en-IN''" ?c]
    by (auto simp: Let_def lower_simps incl_simps)
  ultimately show ?thesis by blast
qed

subsection \<open>C7: the location prefix\<close>

text \<open>
  C7. For every query, language and context object, the answer of the mocked fetcher
  (and so of \<^const>\<open>getAIResponse\<close>) is the answer for the same context without a
  location, with the location disclaimer put in front when the location is set and
  unchanged when it is not; no answer without a location starts with the disclaimer.
  This holds on every branch of the keyword routing, the fallbacks included.
\<close>

theorem location_prefix_uniform:
  "\<exists>r r0. mockAIResponse query lang (Some cx) = Inr r \<and>
     getAIResponse query lang img (Some cx) = r \<and>
     mockAIResponse query lang (Some (cx\<lparr>location := None\<rparr>)) = Inr r0 \<and>
     \<not> prefix location_prefix (res_answer r0) \<and>
     (location cx \<noteq> None \<longrightarrow>
        res_answer r = location_prefix @ res_answer r0 \<and> prefix location_prefix (res_answer r)) \<and>
     (location cx = None \<longrightarrow> r = r0 \<and> \<not> prefix location_prefix (res_answer r))"
  using no_location_prefix
  by (auto simp: mockAIResponse_def getAIResponse_def Let_def)

theorem location_prefix_uniform_witness:
  "res_answer (getAIResponse (Str ''rain tomorrow'') ''en-IN'' None
      (Some \<lparr>location = Some \<lparr>lat = 10, lon = 76\<rparr>, lastImage = None\<rparr>)) = location_prefix @ weather_text \<and>
   res_answer (getAIResponse (Str ''rain tomorrow'') ''en-IN'' None
      (Some \<lparr>location = None, lastImage = None\<rparr>)) = weather_text \<and>
   \<not> prefix location_prefix weather_text"
proof -
  let ?c1 = "\<lparr>location = Some \<lparr>lat = 10, lon = 76\<rparr>, lastImage = None\<rparr>"
  let ?c0 = "\<lparr>location = None, lastImage = None\<rparr>"
  have m0: "mockAIResponse (Str ''rain tomorrow'') ''en-IN'' (Some ?c0)
      = Inr \<lparr>res_answer = weather_text, res_confidence = Some (85 / 100),
              res_sources = Some [''Local Agri Dept Guidelines''], res_error = False\<rparr>"
    by (simp add: mockAIResponse_def lower_simps incl_simps)
  have "?c1\<lparr>location := None\<rparr> = ?c0" and "?c0\<lparr>location := None\<rparr> = ?c0" by simp_all
  with m0 location_prefix_uniform [of "Str ''rain tomorrow''" "''en-IN''" ?c1 None]
    location_prefix_uniform [of "Str ''rain tomorrow''" "''en-IN''" ?c0 None]
  show ?thesis by auto
qed

subsection \<open>C10: an image-only submission\<close>

text \<open>
  Given a context object that holds the image, \<^const>\<open>mockAIResponse\<close> answers the empty
  query with the \<^verbatim>\<open>not sure\<close> fallback. But \<^const>\<open>handleQuery\<close> hands the fetcher the
  object \<^verbatim>\<open>{ location: context.location }\<close>, which has no \<^verbatim>\<open>lastImage\<close>, and
  \<^const>\<open>getAIResponse\<close> does not pass its \<open>imageFile\<close> on: for an image-only submission
  the fetcher sees neither text nor image.
\<close>

lemma mockAIResponse_image_only:
  "mockAIResponse (Str []) lang (Some \<lparr>location = loc, lastImage = Some f\<rparr>)
     = Inr \<lparr>res_answer = (if loc \<noteq> None then location_prefix @ not_sure_text else not_sure_text),
             res_confidence = Some (85 / 100),
             res_sources = Some [''Local Agri Dept Guidelines''], res_error = False\<rparr>"
  by (simp add: mockAIResponse_def toLowerCase_def incl_simps)

lemma handleQuery_begin_image_only:
  "trim (queryText_value st) = [] \<Longrightarrow> context_lastImage st = Some f \<Longrightarrow>
   snd (handleQuery_begin st) =
     Some \<lparr>call_query = [], call_lang = langSelect_value st, call_imageFile = Some f,
           call_ctx = \<lparr>location = context_location st, lastImage = None\<rparr>\<rparr>"
  by (simp add: handleQuery_begin_def Let_def)

lemma getAIResponse_image_only:
  "getAIResponse (Str []) lang (Some f) (Some \<lparr>location = loc, lastImage = None\<rparr>)
     = \<lparr>res_answer = (if loc \<noteq> None then location_prefix @ please_type_text else please_type_text),
         res_confidence = Some (85 / 100),
         res_sources = Some [''Local Agri Dept Guidelines''], res_error = False\<rparr>"
  by (simp add: getAIResponse_def mockAIResponse_def toLowerCase_def)

lemma handleQuery_image_only:
  assumes "trim (queryText_value st) = []" and "context_lastImage st = Some f"
  shows "\<exists>a. a = (if context_location st \<noteq> None then location_prefix @ please_type_text
                   else please_type_text) \<and>
     last (context_history (handleQuery now fmt st))
       = \<lparr>rec_q = [], rec_lang = langSelect_value st, rec_ts = now, rec_answer = a\<rparr> \<and>
     innerHTML (responseText (handleQuery now fmt st)) = cursor \<and>
     last (timers (responseText (handleQuery now fmt st))) = \<lparr>t_text = a, t_i = 0\<rparr>"
  using assms
  by (simp add: handleQuery_def handleQuery_begin_def handleQuery_resume_def Let_def
      getAIResponse_image_only typewriterEffect_def shift_snoc)

text \<open>
  C10, at a submission with an image and a blank text area: the answer shown and stored
  is the prompt for input, where \<^const>\<open>mockAIResponse\<close>, were it given the image, would
  return the \<^verbatim>\<open>not sure\<close> fallback.
\<close>

theorem handleQuery_image_only_prompt:
  "context_history
     (handleQuery 1762147920000 fmt
        (example_page\<lparr>context_lastImage := Some (File ''leaf.jpg''), queryText_value := '' ''\<rparr>))
     = [\<lparr>rec_q = [], rec_lang = ''en-IN'', rec_ts = 1762147920000, rec_answer = please_type_text\<rparr>] \<and>
   mockAIResponse (Str []) ''en-IN'' (Some \<lparr>location = None, lastImage = Some (File ''leaf.jpg'')\<rparr>)
     = Inr \<lparr>res_answer = not_sure_text, res_confidence = Some (85 / 100),
             res_sources = Some [''Local Agri Dept Guidelines''], res_error = False\<rparr> \<and>
   please_type_text \<noteq> not_sure_text"
proof -
  have t: "trim '' '' = []" by (simp add: trim_def white_space_def)
  show ?thesis
    by (simp add: handleQuery_def handleQuery_begin_def handleQuery_resume_def Let_def t
        example_page_def getAIResponse_image_only mockAIResponse_image_only)
      (simp add: please_type_text_def not_sure_text_def)
qed

section \<open>Facts about the typewriter effect\<close>

lemma typing_step:
  "k < length txt \<Longrightarrow>
   typing 0 \<lparr>innerHTML = h, timers = [\<lparr>t_text = txt, t_i = k\<rparr>]\<rparr>
     = \<lparr>innerHTML = take (Suc k) txt @ cursor, timers = [\<lparr>t_text = txt, t_i = Suc k\<rparr>]\<rparr>"
  by (simp add: typing_def Let_def)

lemma typing_done:
  "typing 0 \<lparr>innerHTML = h, timers = [\<lparr>t_text = txt, t_i = length txt\<rparr>]\<rparr>
     = \<lparr>innerHTML = txt, timers = []\<rparr>"
  by (simp add: typing_def Let_def)

lemma typing_idle: "typing 0 \<lparr>innerHTML = h, timers = []\<rparr> = \<lparr>innerHTML = h, timers = []\<rparr>"
  by (simp add: typing_def)

lemma typing_idle_pow: "(typing 0 ^^ j) \<lparr>innerHTML = h, timers = []\<rparr> = \<lparr>innerHTML = h, timers = []\<rparr>"
  by (induction j) (simp_all add: typing_idle)

lemma typing_pow:
  "k \<le> length txt \<Longrightarrow>
   (typing 0 ^^ k) \<lparr>innerHTML = cursor, timers = [\<lparr>t_text = txt, t_i = 0\<rparr>]\<rparr>
     = \<lparr>innerHTML = take k txt @ cursor, timers = [\<lparr>t_text = txt, t_i = k\<rparr>]\<rparr>"
  by (induction k) (simp_all add: typing_step)

lemma typing_finish:
  "(typing 0 ^^ (Suc (length txt) + j)) \<lparr>innerHTML = cursor, timers = [\<lparr>t_text = txt, t_i = 0\<rparr>]\<rparr>
     = \<lparr>innerHTML = txt, timers = []\<rparr>"
proof -
  let ?r = "\<lparr>innerHTML = cursor, timers = [\<lparr>t_text = txt, t_i = 0\<rparr>]\<rparr>"
  have "(typing 0 ^^ (Suc (length txt) + j)) ?r = (typing 0 ^^ (j + Suc (length txt))) ?r"
    by (simp only: add.commute)
  also have "\<dots> = (typing 0 ^^ j) (typing 0 ((typing 0 ^^ length txt) ?r))"
    by (simp only: funpow_add funpow.simps o_apply)
  also have "\<dots> = (typing 0 ^^ j) \<lparr>innerHTML = txt, timers = []\<rparr>"
    by (simp add: typing_pow typing_done)
  finally show ?thesis by (simp add: typing_idle_pow)
qed

section \<open>Claims about handleQuery and the history\<close>

subsection \<open>C1: the bound of the history\<close>

lemma getAIResponse_Some:
  "getAIResponse query lang img (Some cx) = getAIResponse query lang None (Some cx)"
  "\<not> res_error (getAIResponse query lang img (Some cx))"
  by (simp_all add: getAIResponse_def mockAIResponse_def Let_def)

lemma submit_history:
  assumes "trim (fst inp) \<noteq> [] \<or> context_lastImage st \<noteq> None"
  shows "context_history (submit fmt inp st) =
           (if 10 < length (context_history st @ [record_of (context_location st) inp])
            then tl (context_history st @ [record_of (context_location st) inp])
            else context_history st @ [record_of (context_location st) inp])"
    and "context_location (submit fmt inp st) = context_location st"
    and "context_lastImage (submit fmt inp st) = context_lastImage st"
  using assms getAIResponse_Some(1) [of _ _ "context_lastImage st"]
  by (auto simp: submit_def handleQuery_def handleQuery_begin_def handleQuery_resume_def Let_def
      record_of_def getAIResponse_Some(2) split: prod.splits)

lemma keep_last:
  assumes "10 \<le> M" and "M = 10 \<or> M \<le> length xs"
  shows "(if 10 < length (drop (length xs - M) xs @ [r]) then tl (drop (length xs - M) xs @ [r])
          else drop (length xs - M) xs @ [r]) = drop (length (xs @ [r]) - M) (xs @ [r])"
proof (cases "length xs < M")
  case True
  with assms have "M = 10" by auto
  with True show ?thesis by simp
next
  case False
  then have le: "M \<le> length xs" by simp
  then have len: "length (drop (length xs - M) xs) = M" by simp
  have "tl (drop (length xs - M) xs @ [r]) = drop (Suc (length xs - M)) xs @ [r]"
    using len assms(1) by (simp add: shift_snoc tl_drop drop_Suc)
  moreover have "drop (length (xs @ [r]) - M) (xs @ [r]) = drop (Suc (length xs - M)) xs @ [r]"
    using le assms(1) by (simp add: Suc_diff_le)
  ultimately show ?thesis using len assms(1) by simp
qed

lemma fold_submit:
  assumes "\<forall>inp \<in> set inputs. trim (fst inp) \<noteq> [] \<or> context_lastImage st \<noteq> None"
  shows "context_history (fold (submit fmt) inputs st) =
           drop (length (context_history st @ map (record_of (context_location st)) inputs)
                   - max 10 (length (context_history st)))
             (context_history st @ map (record_of (context_location st)) inputs)
         \<and> context_location (fold (submit fmt) inputs st) = context_location st
         \<and> context_lastImage (fold (submit fmt) inputs st) = context_lastImage st"
  using assms
proof (induction inputs rule: rev_induct)
  case Nil
  then show ?case by simp
next
  case (snoc inp inputs)
  let ?s = "fold (submit fmt) inputs st"
  let ?A = "context_history st @ map (record_of (context_location st)) inputs"
  let ?M = "max 10 (length (context_history st))"
  let ?r = "record_of (context_location st) inp"
  have ih: "context_history ?s = drop (length ?A - ?M) ?A"
    and loc: "context_location ?s = context_location st"
    and img: "context_lastImage ?s = context_lastImage st"
    using snoc by auto
  have ok: "trim (fst inp) \<noteq> [] \<or> context_lastImage ?s \<noteq> None"
    using snoc.prems img by auto
  have "context_history (submit fmt inp ?s) =
          (if 10 < length (drop (length ?A - ?M) ?A @ [?r]) then tl (drop (length ?A - ?M) ?A @ [?r])
           else drop (length ?A - ?M) ?A @ [?r])"
    using submit_history(1) [OF ok, of fmt] by (simp only: ih loc)
  also have "\<dots> = drop (length (?A @ [?r]) - ?M) (?A @ [?r])"
    by (rule keep_last) auto
  finally have "context_history (fold (submit fmt) (inputs @ [inp]) st)
      = drop (length (context_history st @ map (record_of (context_location st)) (inputs @ [inp])) - ?M)
          (context_history st @ map (record_of (context_location st)) (inputs @ [inp]))"
    by simp
  moreover have "context_location (fold (submit fmt) (inputs @ [inp]) st) = context_location st"
    using submit_history(2) [OF ok, of fmt] loc by simp
  moreover have "context_lastImage (fold (submit fmt) (inputs @ [inp]) st) = context_lastImage st"
    using submit_history(3) [OF ok, of fmt] img by simp
  ultimately show ?case by blast
qed

text \<open>
  C1 fails as stated, for every starting history: \<^verbatim>\<open>shift\<close> runs once for each
  \<^verbatim>\<open>push\<close>, so a history that starts with 11 records (read from the storage at
  startup, which is not trimmed) has 11 records after the next successful query too.
\<close>

theorem history_over_ten_counterexample:
  "length (context_history (example_page\<lparr>context_history :=
       replicate 11 \<lparr>rec_q = ''old'', rec_lang = ''en-IN'', rec_ts = 0, rec_answer = not_sure_text\<rparr>\<rparr>)) = 11 \<and>
   length (context_history (submit str_nat (''hello'', ''en-IN'', 1762147920000)
     (example_page\<lparr>context_history :=
       replicate 11 \<lparr>rec_q = ''old'', rec_lang = ''en-IN'', rec_ts = 0, rec_answer = not_sure_text\<rparr>\<rparr>))) = 11 \<and>
   \<not> length (context_history (submit str_nat (''hello'', ''en-IN'', 1762147920000)
     (example_page\<lparr>context_history :=
       replicate 11 \<lparr>rec_q = ''old'', rec_lang = ''en-IN'', rec_ts = 0, rec_answer = not_sure_text\<rparr>\<rparr>))) \<le> 10"
proof -
  have "trim ''hello'' \<noteq> []" by (simp add: trim_def white_space_def)
  then show ?thesis by (simp add: submit_history(1))
qed

text \<open>
  C1, amended. When the history starts with at most 10 records, then after every record
  operation (each submission that is not blocked) it has at most 10 records; the new
  record is appended at the end and, when that makes 11, the first record is removed.
  After any number of such submissions the history is the last ten of the old records
  followed by the new ones, in this order; so after 11 submissions it is exactly the
  records 2 to 11, and record 1 is absent when the 11 queries are distinct.
\<close>

theorem history_bounded_fifo:
  assumes "length (context_history st) \<le> 10"
    and "\<forall>inp \<in> set inputs. trim (fst inp) \<noteq> [] \<or> context_lastImage st \<noteq> None"
  shows "length (context_history (fold (submit fmt) inputs st)) \<le> 10 \<and>
         context_history (fold (submit fmt) inputs st) =
           drop (length (context_history st @ map (record_of (context_location st)) inputs) - 10)
             (context_history st @ map (record_of (context_location st)) inputs) \<and>
         (inputs \<noteq> [] \<longrightarrow>
            last (context_history (fold (submit fmt) inputs st))
              = record_of (context_location st) (last inputs)) \<and>
         (length inputs = 11 \<longrightarrow>
            context_history (fold (submit fmt) inputs st)
              = map (record_of (context_location st)) (tl inputs)) \<and>
         (length inputs = 11 \<and> distinct (map (\<lambda>inp. trim (fst inp)) inputs) \<longrightarrow>
            record_of (context_location st) (hd inputs)
              \<notin> set (context_history (fold (submit fmt) inputs st)))"
proof -
  let ?h = "context_history st" and ?recs = "map (record_of (context_location st)) inputs"
  let ?H = "context_history (fold (submit fmt) inputs st)"
  have H: "?H = drop (length (?h @ ?recs) - 10) (?h @ ?recs)"
    using fold_submit [OF assms(2), of fmt] assms(1) by (simp add: max_def)
  have len: "length ?H \<le> 10" unfolding H by simp
  have lst: "last ?H = record_of (context_location st) (last inputs)" if "inputs \<noteq> []"
  proof -
    have "length (?h @ ?recs) - 10 < length (?h @ ?recs)" using that by (cases inputs) auto
    then have "last ?H = last (?h @ ?recs)" unfolding H by (rule last_drop)
    with that show ?thesis by (simp add: last_map)
  qed
  have eleven: "?H = map (record_of (context_location st)) (tl inputs)" if "length inputs = 11"
  proof -
    have "length (?h @ ?recs) - 10 = length ?h + 1" using that by simp
    then have "?H = drop 1 ?recs" unfolding H by simp
    then show ?thesis by (simp add: drop_Suc map_tl)
  qed
  have absent: "record_of (context_location st) (hd inputs) \<notin> set ?H"
    if l11: "length inputs = 11" and d: "distinct (map (\<lambda>inp. trim (fst inp)) inputs)"
  proof
    assume "record_of (context_location st) (hd inputs) \<in> set ?H"
    then obtain inp where inp: "inp \<in> set (tl inputs)"
      and eq: "record_of (context_location st) (hd inputs) = record_of (context_location st) inp"
      unfolding eleven [OF l11] by auto
    from eq have "trim (fst (hd inputs)) = trim (fst inp)"
      by (auto simp: record_of_def split: prod.splits)
    moreover from l11 obtain x xs where "inputs = x # xs" by (cases inputs) auto
    ultimately show False using d inp by force
  qed
  from H len lst eleven absent show ?thesis by blast
qed

theorem history_bounded_fifo_witness:
  "map rec_q (context_history (fold (submit str_nat) eleven_inputs example_page))
     = [''b'', ''c'', ''d'', ''e'', ''f'', ''g'', ''h'', ''i'', ''j'', ''k''] \<and>
   length (context_history (fold (submit str_nat) eleven_inputs example_page)) = 10 \<and>
   record_of None (''a'', ''en-IN'', 1)
     \<notin> set (context_history (fold (submit str_nat) eleven_inputs example_page))"
proof -
  have t: "trim [c] = [c]" if "c \<notin> set white_space" for c
    using that by (simp add: trim_def)
  have ts: "map (\<lambda>inp. trim (fst inp)) eleven_inputs
      = [''a'', ''b'', ''c'', ''d'', ''e'', ''f'', ''g'', ''h'', ''i'', ''j'', ''k'']"
    by (simp add: eleven_inputs_def t white_space_def)
  have a1: "length (context_history example_page) \<le> 10" by (simp add: example_page_def)
  have a2: "\<forall>inp \<in> set eleven_inputs. trim (fst inp) \<noteq> [] \<or> context_lastImage example_page \<noteq> None"
    by (simp add: eleven_inputs_def t white_space_def)
  have l: "length eleven_inputs = 11" and h: "hd eleven_inputs = (''a'', ''en-IN'', 1)"
    by (simp_all add: eleven_inputs_def)
  have d: "distinct (map (\<lambda>inp. trim (fst inp)) eleven_inputs)" unfolding ts by simp
  have loc: "context_location example_page = None" by (simp add: example_page_def)
  note T = history_bounded_fifo [OF a1 a2, of str_nat, unfolded loc]
  from T l have H: "context_history (fold (submit str_nat) eleven_inputs example_page)
      = map (record_of None) (tl eleven_inputs)" by blast
  have q: "rec_q (record_of None inp) = trim (fst inp)" for inp
    by (simp add: record_of_def split: prod.splits)
  have "map rec_q (map (record_of None) (tl eleven_inputs)) = tl (map (\<lambda>inp. trim (fst inp)) eleven_inputs)"
    by (simp add: map_tl q comp_def)
  then have "map rec_q (context_history (fold (submit str_nat) eleven_inputs example_page))
     = [''b'', ''c'', ''d'', ''e'', ''f'', ''g'', ''h'', ''i'', ''j'', ''k'']"
    unfolding H ts by simp
  moreover have "length (context_history (fold (submit str_nat) eleven_inputs example_page)) = 10"
    unfolding H using l by simp
  moreover have "record_of None (hd eleven_inputs)
     \<notin> set (context_history (fold (submit str_nat) eleven_inputs example_page))"
    using T l d by blast
  then have "record_of None (''a'', ''en-IN'', 1)
     \<notin> set (context_history (fold (submit str_nat) eleven_inputs example_page))"
    unfolding h .
  ultimately show ?thesis by blast
qed

subsection \<open>C6: a blocked submission\<close>

text \<open>
  C6. When the trimmed text is empty and no image is present, \<^const>\<open>handleQuery\<close> stops
  at the alert: no call of the fetcher is made or logged, the history and the storage
  are unchanged, and the only change of the page is the alert, raised before
  \<^const>\<open>handleQuery\<close> returns.
\<close>

theorem handleQuery_blocked:
  assumes "trim (queryText_value st) = []" and "context_lastImage st = None"
  shows "handleQuery now fmt st = st\<lparr>alerts := alerts st @ [''Please enter a question or upload an image.'']\<rparr> \<and>
         snd (handleQuery_begin st) = None \<and>
         fetches (handleQuery now fmt st) = fetches st \<and>
         context_history (handleQuery now fmt st) = context_history st \<and>
         localStorage (handleQuery now fmt st) = localStorage st \<and>
         alerts (handleQuery now fmt st) = alerts st @ [''Please enter a question or upload an image.'']"
  using assms by (simp add: handleQuery_def handleQuery_begin_def Let_def)

theorem handleQuery_blocked_witness:
  "handleQuery 1762147920000 (\<lambda>n. str_nat n) (example_page\<lparr>queryText_value := [CHR 0x20, CHR 0x09, CHR 0x0A]\<rparr>)
     = example_page\<lparr>queryText_value := [CHR 0x20, CHR 0x09, CHR 0x0A],
                    alerts := [''Please enter a question or upload an image.'']\<rparr> \<and>
   fetches (handleQuery 1762147920000 (\<lambda>n. str_nat n) (example_page\<lparr>queryText_value := [CHR 0x20, CHR 0x09, CHR 0x0A]\<rparr>)) = []"
proof -
  let ?st = "example_page\<lparr>queryText_value := [CHR 0x20, CHR 0x09, CHR 0x0A]\<rparr>"
  have "trim (queryText_value ?st) = []" by (simp add: trim_def white_space_def)
  moreover have "context_lastImage ?st = None" by (simp add: example_page_def)
  ultimately show ?thesis
    using handleQuery_blocked [of ?st 1762147920000 "\<lambda>n. str_nat n"]
    by (simp add: example_page_def)
qed

subsection \<open>C3: a failed fetch\<close>

text \<open>
  C3. When the fetcher resolves with \<open>error\<close> set, \<^const>\<open>handleQuery\<close> leaves the
  history, the storage and the rendered history list as they were, and still renders
  the answer: it starts the typewriter effect on it, and when no earlier reveal is still
  running the timer shows one more character of the answer with each firing and, at
  firing \<open>N + 1\<close> for an answer of length \<open>N\<close>, leaves the whole answer on display with no
  timer alive. (An earlier reveal that is still running is never cancelled by the
  script; how two reveals interleave is left out here.) The fetcher itself always
  returns a response: when the mocked call throws, \<^const>\<open>getAIResponse\<close> returns the
  apology with \<open>error\<close> set, and otherwise the mocked response, whose \<open>error\<close> is not
  set.
\<close>

theorem error_response_not_recorded:
  "(res_error res \<longrightarrow>
      context_history (handleQuery_resume now fmt call res st) = context_history st \<and>
      localStorage (handleQuery_resume now fmt call res st) = localStorage st \<and>
      historyList (handleQuery_resume now fmt call res st) = historyList st \<and>
      responseMeta (handleQuery_resume now fmt call res st) = An_error_occurred \<and>
      responseText (handleQuery_resume now fmt call res st)
        = typewriterEffect (res_answer res) (responseText st) \<and>
      (timers (responseText st) = [] \<longrightarrow>
         (\<forall>k \<le> length (res_answer res).
            (typing 0 ^^ k) (responseText (handleQuery_resume now fmt call res st))
              = \<lparr>innerHTML = take k (res_answer res) @ cursor,
                 timers = [\<lparr>t_text = res_answer res, t_i = k\<rparr>]\<rparr>) \<and>
         (\<forall>j. (typing 0 ^^ (Suc (length (res_answer res)) + j))
                 (responseText (handleQuery_resume now fmt call res st))
              = \<lparr>innerHTML = res_answer res, timers = []\<rparr>))) \<and>
   (\<forall>e. mockAIResponse query lang c = Inl e \<longrightarrow>
      getAIResponse query lang img c
        = \<lparr>res_answer = apology_text, res_confidence = None, res_sources = None, res_error = True\<rparr>) \<and>
   (\<forall>r. mockAIResponse query lang c = Inr r \<longrightarrow> getAIResponse query lang img c = r \<and> \<not> res_error r)"
proof -
  let ?st' = "handleQuery_resume now fmt call res st"
  have frame: "context_history ?st' = context_history st \<and> localStorage ?st' = localStorage st \<and>
      historyList ?st' = historyList st \<and> responseMeta ?st' = An_error_occurred \<and>
      responseText ?st' = typewriterEffect (res_answer res) (responseText st)" if "res_error res"
    using that by (simp add: handleQuery_resume_def Let_def)
  have reveal: "(\<forall>k \<le> length (res_answer res).
            (typing 0 ^^ k) (responseText ?st')
              = \<lparr>innerHTML = take k (res_answer res) @ cursor,
                 timers = [\<lparr>t_text = res_answer res, t_i = k\<rparr>]\<rparr>) \<and>
         (\<forall>j. (typing 0 ^^ (Suc (length (res_answer res)) + j)) (responseText ?st')
              = \<lparr>innerHTML = res_answer res, timers = []\<rparr>)"
    if "res_error res" and idle: "timers (responseText st) = []"
  proof -
    have e: "responseText ?st'
        = \<lparr>innerHTML = cursor, timers = [\<lparr>t_text = res_answer res, t_i = 0\<rparr>]\<rparr>"
      using frame [OF that(1)] idle by (simp add: typewriterEffect_def)
    show ?thesis
    proof (intro conjI allI impI)
      fix k assume "k \<le> length (res_answer res)"
      then show "(typing 0 ^^ k) (responseText ?st')
          = \<lparr>innerHTML = take k (res_answer res) @ cursor,
             timers = [\<lparr>t_text = res_answer res, t_i = k\<rparr>]\<rparr>"
        unfolding e by (rule typing_pow)
    next
      fix j show "(typing 0 ^^ (Suc (length (res_answer res)) + j)) (responseText ?st')
          = \<lparr>innerHTML = res_answer res, timers = []\<rparr>"
        unfolding e by (rule typing_finish)
    qed
  qed
  have fetch: "(\<forall>e. mockAIResponse query lang c = Inl e \<longrightarrow>
      getAIResponse query lang img c
        = \<lparr>res_answer = apology_text, res_confidence = None, res_sources = None, res_error = True\<rparr>) \<and>
   (\<forall>r. mockAIResponse query lang c = Inr r \<longrightarrow> getAIResponse query lang img c = r \<and> \<not> res_error r)"
    by (auto simp: getAIResponse_def Let_def mockAIResponse_def split: option.splits if_splits)
  from frame reveal fetch show ?thesis by blast
qed

theorem error_response_not_recorded_witness:
  "mockAIResponse (Str ''hello'') ''en-IN'' None = Inl TypeError \<and>
   getAIResponse (Str ''hello'') ''en-IN'' None None
     = \<lparr>res_answer = apology_text, res_confidence = None, res_sources = None, res_error = True\<rparr> \<and>
   context_history (handleQuery_resume 1762147920000 (\<lambda>n. str_nat n)
      \<lparr>call_query = ''hello'', call_lang = ''en-IN'', call_imageFile = None,
        call_ctx = \<lparr>location = None, lastImage = None\<rparr>\<rparr>
      (getAIResponse (Str ''hello'') ''en-IN'' None None) example_page) = [] \<and>
   localStorage (handleQuery_resume 1762147920000 (\<lambda>n. str_nat n)
      \<lparr>call_query = ''hello'', call_lang = ''en-IN'', call_imageFile = None,
        call_ctx = \<lparr>location = None, lastImage = None\<rparr>\<rparr>
      (getAIResponse (Str ''hello'') ''en-IN'' None None) example_page) ''kr_history'' = None \<and>
   responseText (handleQuery_resume 1762147920000 (\<lambda>n. str_nat n)
      \<lparr>call_query = ''hello'', call_lang = ''en-IN'', call_imageFile = None,
        call_ctx = \<lparr>location = None, lastImage = None\<rparr>\<rparr>
      (getAIResponse (Str ''hello'') ''en-IN'' None None) example_page)
     = \<lparr>innerHTML = cursor, timers = [\<lparr>t_text = apology_text, t_i = 0\<rparr>]\<rparr> \<and>
   (typing 0 ^^ 5) (responseText (handleQuery_resume 1762147920000 (\<lambda>n. str_nat n)
      \<lparr>call_query = ''hello'', call_lang = ''en-IN'', call_imageFile = None,
        call_ctx = \<lparr>location = None, lastImage = None\<rparr>\<rparr>
      (getAIResponse (Str ''hello'') ''en-IN'' None None) example_page))
     = \<lparr>innerHTML = ''Sorry'' @ cursor, timers = [\<lparr>t_text = apology_text, t_i = 5\<rparr>]\<rparr> \<and>
   (typing 0 ^^ Suc (length apology_text)) (responseText (handleQuery_resume 1762147920000 (\<lambda>n. str_nat n)
      \<lparr>call_query = ''hello'', call_lang = ''en-IN'', call_imageFile = None,
        call_ctx = \<lparr>location = None, lastImage = None\<rparr>\<rparr>
      (getAIResponse (Str ''hello'') ''en-IN'' None None) example_page))
     = \<lparr>innerHTML = apology_text, timers = []\<rparr>"
proof -
  let ?call = "\<lparr>call_query = ''hello'', call_lang = ''en-IN'', call_imageFile = None,
        call_ctx = \<lparr>location = None, lastImage = None\<rparr>\<rparr>"
  let ?res = "getAIResponse (Str ''hello'') ''en-IN'' None None"
  let ?st' = "handleQuery_resume 1762147920000 (\<lambda>n. str_nat n) ?call ?res example_page"
  have m: "mockAIResponse (Str ''hello'') ''en-IN'' None = Inl TypeError"
    by (simp add: mockAIResponse_def lower_simps incl_simps)
  note t = error_response_not_recorded [of ?res
      1762147920000 "\<lambda>n. str_nat n" ?call example_page "Str ''hello''" "''en-IN''" None None]
  from t m have g: "?res
     = \<lparr>res_answer = apology_text, res_confidence = None, res_sources = None, res_error = True\<rparr>"
    by blast
  have err: "res_error ?res" and ans: "res_answer ?res = apology_text" by (simp_all add: g)
  have idle: "timers (responseText example_page) = []" by (simp add: example_page_def)
  have five: "(5::nat) \<le> length apology_text" and tk: "take 5 apology_text = ''Sorry''"
    by (simp_all add: apology_text_def)
  from t err idle have
    pre: "\<forall>k \<le> length (res_answer ?res). (typing 0 ^^ k) (responseText ?st')
        = \<lparr>innerHTML = take k (res_answer ?res) @ cursor,
           timers = [\<lparr>t_text = res_answer ?res, t_i = k\<rparr>]\<rparr>"
    and fin: "\<forall>j. (typing 0 ^^ (Suc (length (res_answer ?res)) + j)) (responseText ?st')
        = \<lparr>innerHTML = res_answer ?res, timers = []\<rparr>"
    by blast+
  from pre five have p5: "(typing 0 ^^ 5) (responseText ?st')
      = \<lparr>innerHTML = ''Sorry'' @ cursor, timers = [\<lparr>t_text = apology_text, t_i = 5\<rparr>]\<rparr>"
    unfolding ans by (metis tk)
  from fin [rule_format, of 0] have pf: "(typing 0 ^^ Suc (length apology_text)) (responseText ?st')
      = \<lparr>innerHTML = apology_text, timers = []\<rparr>"
    unfolding ans by simp
  from t err have fr: "context_history ?st' = context_history example_page"
    "localStorage ?st' = localStorage example_page"
    "responseText ?st' = typewriterEffect (res_answer ?res) (responseText example_page)"
    by blast+
  from fr have "context_history ?st' = []" "localStorage ?st' ''kr_history'' = None"
    "responseText ?st' = \<lparr>innerHTML = cursor, timers = [\<lparr>t_text = apology_text, t_i = 0\<rparr>]\<rparr>"
    unfolding ans by (simp_all add: example_page_def typewriterEffect_def)
  with m g p5 pf show ?thesis by blast
qed

section \<open>Claims about the typewriter effect\<close>

subsection \<open>C8: the incremental reveal\<close>

text \<open>
  C8 fails as stated, by one step: after \<open>N\<close> firings of the timer the whole
  answer is shown with the cursor still behind it, and the timer is still alive. For the
  answer \<^verbatim>\<open>ab\<close>, two steps leave \<^verbatim>\<open>ab\<close> followed by the cursor.
\<close>

theorem typewriter_cursor_counterexample:
  "length ''ab'' = 2 \<and>
   innerHTML ((typing 0 ^^ 2) (typewriterEffect ''ab'' \<lparr>innerHTML = [], timers = []\<rparr>)) = ''ab'' @ cursor \<and>
   innerHTML ((typing 0 ^^ 2) (typewriterEffect ''ab'' \<lparr>innerHTML = [], timers = []\<rparr>)) \<noteq> ''ab'' \<and>
   timers ((typing 0 ^^ 2) (typewriterEffect ''ab'' \<lparr>innerHTML = [], timers = []\<rparr>)) \<noteq> []"
  by (simp add: eval_nat_numeral typewriterEffect_def typing_def Let_def cursor_def)

text \<open>
  C8, amended. Started on an element with no live timer, for an answer of length \<open>N\<close>:
  after \<open>k \<le> N\<close> firings the displayed markup is the prefix of length \<open>k\<close> of the answer
  followed by the cursor marker, so the prefix grows by exactly one character with each
  firing and is a proper prefix as long as \<open>k < N\<close>; after \<open>N\<close> firings the whole answer
  is shown, still followed by the cursor; the next firing, the \<open>(N + 1)\<close>-th, clears the
  timer and leaves the answer with no cursor, and nothing changes after that.
\<close>

theorem typewriter_reveal:
  assumes "timers r = []"
  shows "(\<forall>k \<le> length txt.
            (typing 0 ^^ k) (typewriterEffect txt r)
              = \<lparr>innerHTML = take k txt @ cursor, timers = [\<lparr>t_text = txt, t_i = k\<rparr>]\<rparr>) \<and>
         (\<forall>k < length txt. strict_prefix (take k txt) txt \<and> length (take k txt) = k) \<and>
         (\<forall>j. (typing 0 ^^ (Suc (length txt) + j)) (typewriterEffect txt r)
              = \<lparr>innerHTML = txt, timers = []\<rparr>)"
proof -
  have start: "typewriterEffect txt r = \<lparr>innerHTML = cursor, timers = [\<lparr>t_text = txt, t_i = 0\<rparr>]\<rparr>"
    using assms by (simp add: typewriterEffect_def)
  have "(typing 0 ^^ (Suc (length txt) + j)) (typewriterEffect txt r) = \<lparr>innerHTML = txt, timers = []\<rparr>" for j
  proof -
    have "(typing 0 ^^ (Suc (length txt) + j)) (typewriterEffect txt r)
        = (typing 0 ^^ (j + Suc (length txt))) (typewriterEffect txt r)"
      by (simp only: add.commute)
    also have "\<dots> = (typing 0 ^^ j) (typing 0 ((typing 0 ^^ length txt) (typewriterEffect txt r)))"
      by (simp only: funpow_add funpow.simps o_apply)
    also have "\<dots> = (typing 0 ^^ j) \<lparr>innerHTML = txt, timers = []\<rparr>"
      by (simp add: start typing_pow typing_done)
    finally show ?thesis by (simp add: typing_idle_pow)
  qed
  moreover have "\<forall>k < length txt. strict_prefix (take k txt) txt \<and> length (take k txt) = k"
    by (auto simp: strict_prefix_def take_is_prefix)
  ultimately show ?thesis by (simp add: start typing_pow)
qed

theorem typewriter_reveal_witness:
  "(typing 0 ^^ 1) (typewriterEffect ''ab'' \<lparr>innerHTML = [], timers = []\<rparr>)
      = \<lparr>innerHTML = ''a'' @ cursor, timers = [\<lparr>t_text = ''ab'', t_i = 1\<rparr>]\<rparr> \<and>
   (typing 0 ^^ 2) (typewriterEffect ''ab'' \<lparr>innerHTML = [], timers = []\<rparr>)
      = \<lparr>innerHTML = ''ab'' @ cursor, timers = [\<lparr>t_text = ''ab'', t_i = 2\<rparr>]\<rparr> \<and>
   (typing 0 ^^ 3) (typewriterEffect ''ab'' \<lparr>innerHTML = [], timers = []\<rparr>)
      = \<lparr>innerHTML = ''ab'', timers = []\<rparr>"
proof -
  have a: "timers \<lparr>innerHTML = [], timers = []\<rparr> = []" by simp
  note T = typewriter_reveal [OF a, of "''ab''"]
  from T have "(typing 0 ^^ 1) (typewriterEffect ''ab'' \<lparr>innerHTML = [], timers = []\<rparr>)
      = \<lparr>innerHTML = take 1 ''ab'' @ cursor, timers = [\<lparr>t_text = ''ab'', t_i = 1\<rparr>]\<rparr>"
    by (metis One_nat_def Suc_1 length_Cons list.size(3) le_SucI order_refl)
  moreover from T have "(typing 0 ^^ 2) (typewriterEffect ''ab'' \<lparr>innerHTML = [], timers = []\<rparr>)
      = \<lparr>innerHTML = take 2 ''ab'' @ cursor, timers = [\<lparr>t_text = ''ab'', t_i = 2\<rparr>]\<rparr>"
    by (metis One_nat_def Suc_1 length_Cons list.size(3) order_refl)
  moreover from T have "(typing 0 ^^ (Suc (length ''ab'') + 0)) (typewriterEffect ''ab'' \<lparr>innerHTML = [], timers = []\<rparr>)
      = \<lparr>innerHTML = ''ab'', timers = []\<rparr>"
    by blast
  ultimately show ?thesis by (simp add: eval_nat_numeral)
qed

section \<open>Claims about the rendering of the history\<close>

subsection \<open>C5: reverse order and escaping\<close>













section \<open>Facts about JSON.parse\<close>

lemma lex_string_shorter: "lex_string cs = Inr (s, r) \<Longrightarrow> length r < length cs"
proof (induction cs arbitrary: s r rule: lex_string.induct)
  case 1
  then show ?case by simp
next
  case (2 c cs)
  then show ?case
    by (fastforce split: if_splits list.splits sum.splits option.splits prod.splits)
qed

lemma lex_fraction_shorter: "lex_fraction cs = Some (f, r) \<Longrightarrow> length r \<le> length cs"
  by (auto simp: lex_fraction_def Let_def length_dropWhile_le le_SucI split: list.splits if_splits)

lemma lex_exponent_shorter: "lex_exponent cs = Some (f, r) \<Longrightarrow> length r \<le> length cs"
  by (auto simp: lex_exponent_def Let_def le_SucI split: list.splits if_splits
      intro: order_trans [OF length_dropWhile_le])

lemma lex_number_shorter:
  assumes "lex_number (c # cs) = Some (n, r)"
  shows "length r \<le> length cs"
proof -
  let ?sgn = "if c = CHR ''-'' then [c] else []"
  let ?cs1 = "drop (length ?sgn) (c # cs)"
  from assms obtain fr cs2 ex where
    ds: "takeWhile is_digit ?cs1 \<noteq> []"
    and fr: "lex_fraction (dropWhile is_digit ?cs1) = Some (fr, cs2)"
    and ex: "lex_exponent cs2 = Some (ex, r)"
    by (auto simp: lex_number_def Let_def split: if_splits option.splits)
  from ds have "length (dropWhile is_digit ?cs1) < length ?cs1"
    by (cases ?cs1) (auto simp: le_imp_less_Suc length_dropWhile_le split: if_splits)
  moreover have "length ?cs1 \<le> length (c # cs)" by simp
  ultimately have "length (dropWhile is_digit ?cs1) \<le> length cs" by simp
  with lex_fraction_shorter [OF fr] lex_exponent_shorter [OF ex] show ?thesis by linarith
qed

lemma control_escapes_keys:
  "map_of control_escapes c = None \<longleftrightarrow> c \<notin> set control_chars \<and> c \<noteq> CHR 0x22 \<and> c \<noteq> CHR 0x5C"
  by (simp add: control_escapes_def control_chars_def)

lemma lex_string_escape:
  "map_of control_escapes c = Some e \<Longrightarrow>
   lex_string (CHR 0x5C # e @ rest)
     = (case lex_string rest of Inl err \<Rightarrow> Inl err | Inr (s, r) \<Rightarrow> Inr (c # s, r))"
  by (auto simp: control_escapes_def unicode_escape_def hex_digits_def simple_escapes_def
      split: if_splits)

lemma lex_string_quote:
  "lex_string (concat (map quote_char s) @ CHR 0x22 # rest) = Inr (s, rest)"
proof (induction s)
  case Nil
  then show ?case by simp
next
  case (Cons c s)
  show ?case
  proof (cases "map_of control_escapes c")
    case None
    then have "c \<notin> set control_chars" "c \<noteq> CHR 0x22" "c \<noteq> CHR 0x5C"
      by (simp_all add: control_escapes_keys)
    with None Cons.IH show ?thesis by (simp add: quote_char_def)
  next
    case (Some e)
    with Cons.IH lex_string_escape [OF Some] show ?thesis by (simp add: quote_char_def)
  qed
qed

lemma digit_nth: "k < 10 \<Longrightarrow> is_digit (''0123456789'' ! k)"
  unfolding is_digit_def digit_chars_def by (rule nth_mem) simp

lemma less_ten:
  "(k::nat) < 10 \<Longrightarrow>
   k = 0 \<or> k = 1 \<or> k = 2 \<or> k = 3 \<or> k = 4 \<or> k = 5 \<or> k = 6 \<or> k = 7 \<or> k = 8 \<or> k = 9"
  by arith

lemma digit_nth_zero: "k < 10 \<Longrightarrow> ''0123456789'' ! k = CHR ''0'' \<longleftrightarrow> k = 0"
  using less_ten [of k] by auto

lemma str_nat_digits: "str_nat n \<noteq> [] \<and> (\<forall>c \<in> set (str_nat n). is_digit c)"
proof (induction n rule: str_nat.induct)
  case (1 n)
  show ?case
  proof (cases "n < 10")
    case True
    then show ?thesis by (simp add: str_nat.simps [of n] digit_nth)
  next
    case False
    with "1.IH" show ?thesis by (simp add: str_nat.simps [of n] digit_nth)
  qed
qed

lemma str_nat_no_leading_zero: "0 < n \<Longrightarrow> hd (str_nat n) \<noteq> CHR ''0''"
proof (induction n rule: str_nat.induct)
  case (1 n)
  show ?case
  proof (cases "n < 10")
    case True
    with "1.prems" digit_nth_zero [of n] show ?thesis by (simp add: str_nat.simps [of n])
  next
    case False
    then have "0 < n div 10" by simp
    with "1.IH" "1.prems" False have "hd (str_nat (n div 10)) \<noteq> CHR ''0''" by simp
    with False str_nat_digits [of "n div 10"] show ?thesis
      by (simp add: str_nat.simps [of n])
  qed
qed

lemma lex_number_str_nat:
  "lex_number (str_nat n @ CHR '','' # rest) = Some (str_nat n, CHR '','' # rest)"
proof -
  have nd: "\<not> is_digit (CHR '','')" by (simp add: is_digit_def digit_chars_def)
  obtain d ds where s: "str_nat n = d # ds" using str_nat_digits [of n] by (cases "str_nat n") auto
  have dig: "\<forall>c \<in> set (str_nat n). is_digit c" using str_nat_digits by blast
  then have "is_digit d" using s by simp
  then have dm: "d \<noteq> CHR ''-''" by (auto simp: is_digit_def digit_chars_def)
  have tw: "takeWhile is_digit (str_nat n @ CHR '','' # rest) = str_nat n"
    using dig nd by (simp add: takeWhile_append2)
  have dw: "dropWhile is_digit (str_nat n @ CHR '','' # rest) = CHR '','' # rest"
    using dig nd by (simp add: dropWhile_append2)
  have lz: "\<not> (hd (str_nat n) = CHR ''0'' \<and> length (str_nat n) > 1)"
  proof (cases "n = 0")
    case True
    then show ?thesis by (simp add: str_nat.simps [of 0])
  next
    case False
    then show ?thesis using str_nat_no_leading_zero [of n] by simp
  qed
  have sg: "(case str_nat n @ CHR '','' # rest of [] \<Rightarrow> [] | s # _ \<Rightarrow> if s = CHR ''-'' then [s] else []) = []"
    using s dm by simp
  show ?thesis
    unfolding lex_number_def sg Let_def using str_nat_digits [of n] lz
    by (simp add: tw dw lex_fraction_def lex_exponent_def)
qed

lemma lex_punctuation:
  "lex (CHR ''{'' # cs) = cons_token LBrace (lex cs)"
  "lex (CHR ''}'' # cs) = cons_token RBrace (lex cs)"
  "lex (CHR ''['' # cs) = cons_token LBrack (lex cs)"
  "lex (CHR '']'' # cs) = cons_token RBrack (lex cs)"
  "lex (CHR '':'' # cs) = cons_token Colon (lex cs)"
  "lex (CHR '','' # cs) = cons_token Comma (lex cs)"
  by (simp_all add: lex.simps json_space_def punctuation_def)

lemma lex_quote: "lex (quote s @ rest) = cons_token (TString s) (lex rest)"
  by (simp add: quote_def lex.simps json_space_def punctuation_def lex_string_quote)

lemma lex_str_nat:
  "lex (str_nat n @ CHR '','' # rest) = cons_token (TNumber (str_nat n)) (lex (CHR '','' # rest))"
proof -
  obtain d ds where s: "str_nat n = d # ds" using str_nat_digits [of n] by (cases "str_nat n") auto
  with str_nat_digits [of n] have "is_digit d" by simp
  then have d: "d \<notin> set json_space" "map_of punctuation d = None" "d \<noteq> CHR 0x22"
    by (auto simp: is_digit_def digit_chars_def json_space_def punctuation_def)
  have "lex_number (d # ds @ CHR '','' # rest) = Some (d # ds, CHR '','' # rest)"
    using lex_number_str_nat [of n rest] s by simp
  with d \<open>is_digit d\<close> show ?thesis unfolding s by (simp add: lex.simps)
qed

lemma lex_stringify_rec:
  "lex (stringify_rec r @ rest) = foldr cons_token (rec_tokens r) (lex rest)"
  by (simp add: stringify_rec_def rec_tokens_def lex_punctuation lex_quote lex_str_nat)

lemma foldr_cons_token_append:
  "foldr cons_token (ts @ us) x = foldr cons_token ts (foldr cons_token us x)"
  by simp

lemma foldr_cons_token_Inr: "foldr cons_token ts (Inr us) = Inr (ts @ us)"
  by (induction ts) (simp_all add: cons_token_def)

lemma lex_join:
  "lex (join_comma (map stringify_rec h) @ CHR '']'' # rest)
     = foldr cons_token (tokens_of_list h) (lex (CHR '']'' # rest))"
proof (induction h rule: tokens_of_list.induct)
  case 1
  then show ?case by simp
next
  case (2 r)
  then show ?case by (simp add: lex_stringify_rec)
next
  case (3 r r' rs)
  have "lex (join_comma (map stringify_rec (r # r' # rs)) @ CHR '']'' # rest)
      = lex (stringify_rec r @ CHR '','' # (join_comma (map stringify_rec (r' # rs)) @ CHR '']'' # rest))"
    by simp
  also have "\<dots> = foldr cons_token (rec_tokens r)
      (cons_token Comma (lex (join_comma (map stringify_rec (r' # rs)) @ CHR '']'' # rest)))"
    by (simp only: lex_stringify_rec lex_punctuation)
  finally show ?case using 3 by simp
qed

lemma lex_stringify: "lex (JSON_stringify h) = Inr (LBrack # tokens_of_list h @ [RBrack])"
proof -
  have "lex (JSON_stringify h) = cons_token LBrack (lex (join_comma (map stringify_rec h) @ CHR '']'' # []))"
    by (simp add: JSON_stringify_def lex_punctuation)
  also have "\<dots> = cons_token LBrack (foldr cons_token (tokens_of_list h) (Inr [RBrack]))"
    by (simp only: lex_join) (simp add: lex_punctuation lex.simps(1) cons_token_def)
  finally show ?thesis by (simp add: foldr_cons_token_Inr cons_token_def)
qed

lemma parse_rec_tokens:
  "m = Value \<or> m = Value_or_close \<Longrightarrow>
   parse_tokens (rec_tokens r @ ts) (m, Arr es # st)
     = parse_tokens ts (Comma_or_close, Arr (json_of_rec r # es) # st)"
  by (auto simp: rec_tokens_def step_def begin_value_def expect_key_def reduce_def close_def
      json_of_rec_def)

lemma parse_tokens_list:
  "m = Value \<or> m = Value_or_close \<Longrightarrow>
   parse_tokens (tokens_of_list (r # rs) @ [RBrack]) (m, [Arr es])
     = Inr (JArray (rev es @ map json_of_rec (r # rs)))"
proof (induction rs arbitrary: r es m)
  case Nil
  then show ?case
    by (simp add: parse_rec_tokens) (simp add: step_def close_def reduce_def)
next
  case (Cons r' rs)
  have "parse_tokens (tokens_of_list (r # r' # rs) @ [RBrack]) (m, [Arr es])
      = parse_tokens (Comma # tokens_of_list (r' # rs) @ [RBrack])
          (Comma_or_close, [Arr (json_of_rec r # es)])"
    using Cons.prems by (simp add: parse_rec_tokens)
  also have "\<dots> = parse_tokens (tokens_of_list (r' # rs) @ [RBrack]) (Value, [Arr (json_of_rec r # es)])"
    by (simp add: step_def)
  also have "\<dots> = Inr (JArray (rev (json_of_rec r # es) @ map json_of_rec (r' # rs)))"
    by (rule Cons.IH) simp
  finally show ?case by simp
qed

lemma JSON_parse_stringify: "JSON_parse (JSON_stringify h) = Inr (JArray (map json_of_rec h))"
proof (cases h)
  case Nil
  then show ?thesis
    by (simp add: JSON_parse_def lex_stringify step_def begin_value_def close_def reduce_def)
next
  case (Cons r rs)
  have "parse_tokens (LBrack # tokens_of_list (r # rs) @ [RBrack]) (Value, [])
      = parse_tokens (tokens_of_list (r # rs) @ [RBrack]) (Value_or_close, [Arr []])"
    by (simp add: step_def begin_value_def)
  then show ?thesis unfolding Cons
    by (simp add: JSON_parse_def lex_stringify parse_tokens_list del: tokens_of_list.simps)
qed

section \<open>Claims about the history read at startup\<close>

subsection \<open>C4: absent, well-formed and corrupt storage\<close>

lemma JSON_stringify_nonempty: "JSON_stringify h \<noteq> []"
  by (simp add: JSON_stringify_def)

lemma JSON_parse_empty_array: "JSON_parse ''[]'' = Inr (JArray [])"
  using JSON_parse_stringify [of "[]"] by (simp add: JSON_stringify_def)

lemmas json_eval = JSON_parse_def lex.simps json_space_def punctuation_def cons_token_def
      is_digit_def digit_chars_def literals_def lex_number_def lex_fraction_def lex_exponent_def
      simple_escapes_def control_chars_def unicode_escape_def hex_digits_def Let_def
      step_def begin_value_def close_def reduce_def expect_key_def

text \<open>
  C4 fails as stated for corrupt content: \<^verbatim>\<open>JSON.parse\<close> throws, and nothing
  catches the exception. With a truncated text under the history key the load ends in a
  \<^verbatim>\<open>SyntaxError\<close>, not in an empty sequence.
\<close>

theorem load_history_corrupt_counterexample:
  \<open>load_history [''kr_history'' \<mapsto> ''[{"q":"rain"''] = Inl SyntaxError \<and>
   load_history [''kr_history'' \<mapsto> ''[{"q":"rain"''] \<noteq> Inr (JArray [])\<close>
  by (simp add: load_history_def json_eval)

text \<open>
  C4, amended. The load at startup yields the empty sequence when the history key is
  absent or holds the empty string, and the stored sequence when the key holds what
  \<^verbatim>\<open>JSON.stringify\<close> wrote for a history (so a reload after any successful query gives
  back the history as it was saved). For any other non-empty content it yields what
  \<^verbatim>\<open>JSON.parse\<close> yields: when the content is not valid JSON, the \<^verbatim>\<open>SyntaxError\<close> is
  thrown at startup and no sequence is produced.
\<close>

theorem load_history_cases:
  "(storage ''kr_history'' = None \<longrightarrow> load_history storage = Inr (JArray [])) \<and>
   (storage ''kr_history'' = Some [] \<longrightarrow> load_history storage = Inr (JArray [])) \<and>
   (storage ''kr_history'' = Some (JSON_stringify h) \<longrightarrow>
      load_history storage = Inr (JArray (map json_of_rec h))) \<and>
   (\<forall>s. storage ''kr_history'' = Some s \<and> s \<noteq> [] \<longrightarrow> load_history storage = JSON_parse s) \<and>
   (\<forall>s e. storage ''kr_history'' = Some s \<and> s \<noteq> [] \<and> JSON_parse s = Inl e \<longrightarrow>
      load_history storage = Inl e) \<and>
   (\<not> res_error res \<longrightarrow>
      load_history (localStorage (handleQuery_resume now fmt call res st))
        = Inr (JArray (map json_of_rec (context_history (handleQuery_resume now fmt call res st)))))"
  by (auto simp: load_history_def JSON_parse_empty_array JSON_parse_stringify JSON_stringify_nonempty
      handleQuery_resume_def Let_def)

theorem load_history_cases_witness:
  \<open>load_history Map.empty = Inr (JArray []) \<and>
   load_history [''kr_history'' \<mapsto> ''''] = Inr (JArray []) \<and>
   JSON_stringify [\<lparr>rec_q = ''say "hi"'', rec_lang = ''en-IN'', rec_ts = 1762147920000, rec_answer = ''ok''\<rparr>]
     = ''[{"q":"say '' @ [CHR 0x5C] @ ''"hi'' @ [CHR 0x5C] @ ''"","lang":"en-IN","ts":1762147920000,"answer":"ok"}]'' \<and>
   load_history [''kr_history'' \<mapsto>
       JSON_stringify [\<lparr>rec_q = ''say "hi"'', rec_lang = ''en-IN'', rec_ts = 1762147920000, rec_answer = ''ok''\<rparr>]]
     = Inr (JArray [JObject [(''q'', JString ''say "hi"''), (''lang'', JString ''en-IN''),
                             (''ts'', JNumber ''1762147920000''), (''answer'', JString ''ok'')]]) \<and>
   JSON_parse ''{"q":'' = Inl SyntaxError \<and>
   load_history [''kr_history'' \<mapsto> ''{"q":''] = Inl SyntaxError\<close>
proof -
  let ?r = "\<lparr>rec_q = ''say \"hi\"'', rec_lang = ''en-IN'', rec_ts = 1762147920000, rec_answer = ''ok''\<rparr>"
  have n: "str_nat 1762147920000 = ''1762147920000''" by (simp add: str_nat.simps)
  have s: "JSON_stringify [?r]
     = ''[{\"q\":\"say '' @ [CHR 0x5C] @ ''\"hi'' @ [CHR 0x5C] @ ''\"\",\"lang\":\"en-IN\",\"ts\":1762147920000,\"answer\":\"ok\"}]''"
    by (simp add: JSON_stringify_def stringify_rec_def quote_def quote_char_def control_escapes_def n)
  have p: "JSON_parse ''{\"q\":'' = Inl SyntaxError" by (simp add: json_eval)
  have e: "''{\"q\":'' \<noteq> []" by simp
  note T1 = load_history_cases [of Map.empty]
  note T2 = load_history_cases [of "[''kr_history'' \<mapsto> '''']"]
  note T3 = load_history_cases [of "[''kr_history'' \<mapsto> JSON_stringify [?r]]" "[?r]"]
  note T4 = load_history_cases [of "[''kr_history'' \<mapsto> ''{\"q\":'']"]
  from T1 have "load_history Map.empty = Inr (JArray [])" by simp
  moreover from T2 have "load_history [''kr_history'' \<mapsto> ''''] = Inr (JArray [])" by simp
  moreover from T3 have "load_history [''kr_history'' \<mapsto> JSON_stringify [?r]]
     = Inr (JArray [JObject [(''q'', JString ''say \"hi\"''), (''lang'', JString ''en-IN''),
                             (''ts'', JNumber ''1762147920000''), (''answer'', JString ''ok'')]])"
    by (simp add: json_of_rec_def n)
  moreover from T4 p e have "load_history [''kr_history'' \<mapsto> ''{\"q\":''] = Inl SyntaxError"
    by simp
  ultimately show ?thesis using s p by simp
qed

end
